theory Spec2Isabelle
  imports Complex_Main
begin

section \<open>The notebook \<open>choose_templates.ipynb\<close>: alignment fetch and depth sweep\<close>

text \<open>
  The notebook's code cell builds an \<open>MMSeqs2Runner\<close>, fetches the alignment and the
  templates once, and then runs two nested \<open>for\<close> loops that call
  \<open>predict.predict_structure_from_templates\<close>. The literals of the cell (job name,
  sequence, template list, the bounds \<open>16\<close> and \<open>34\<close> of the depth range and the
  repetition count \<open>5\<close>) are the values the caller edits; the cell is embedded as a
  function of them and the notebook as written is the instance \<open>notebook\<close>.

  The remote alignment service, the pretrained network and the generator behind Python's
  \<open>random\<close> module are outside the repository: they are the fields of an environment. A
  run of the cell that returns gives \<open>Some (Inr ())\<close>, one that raises gives
  \<open>Some (Inl e)\<close>, and \<open>None\<close> stands for a run that has not returned; the world is kept in
  every case, as Python keeps the side effects done before a \<open>raise\<close>.
\<close>

subsection \<open>Data\<close>

datatype error = NetworkFailure | ServiceJobFailure | ModelInvocationError | IndexError

text \<open>The object built by \<open>mmseqs2.MMSeqs2Runner( jobname, sequence )\<close>.\<close>

record runner =
  job :: string
  seq :: string

text \<open>The arguments of one call of \<open>predict.predict_structure_from_templates\<close>.\<close>

record request =
  req_seq :: string
  req_outname :: string
  req_a3m_lines :: string
  req_template_path :: string
  req_model_id :: int
  req_max_msa_clusters :: int
  req_max_extra_msa :: int
  req_max_recycles :: int

text \<open>
  The world the cell acts on: the files by path, the template directories by path (the
  identifiers of the template structures stored there), and the state of the random
  number generator, which is the number of \<open>getrandbits\<close> calls made so far. \<open>fetches\<close> and \<open>calls\<close> are a log, not program state: the number of
  \<open>run_job\<close> calls and the predictions invoked so far, in order.
\<close>

record world =
  files :: "string \<rightharpoonup> string"
  template_dirs :: "string \<rightharpoonup> string list"
  draws_used :: nat
  fetches :: nat
  calls :: "request list"

text \<open>
  The external systems: \<open>service\<close> answers a sequence with the alignment text and the
  templates it reports, or fails; \<open>network\<close> is one forward pass of the pretrained model
  on the stored templates and a request, giving the coordinate text or failing;
  \<open>draws k i\<close> is what the generator's call number \<open>i\<close> of \<open>getrandbits\<close> returns when it
  is asked for \<open>k\<close> bits; \<open>template_dir\<close> is the template directory of a job name.
  \<open>choice_fuel\<close> is not a system: it is the number of \<open>getrandbits\<close> calls one call of
  \<open>random.choice\<close> is followed for (see \<open>randbelow_loop\<close>).
\<close>

record env =
  service :: "string \<Rightarrow> error + string \<times> string list"
  network :: "(string \<rightharpoonup> string list) \<Rightarrow> request \<Rightarrow> error + string"
  draws :: "nat \<Rightarrow> nat \<Rightarrow> nat"
  template_dir :: "string \<Rightarrow> string"
  choice_fuel :: nat

subsection \<open>Python primitives\<close>

text \<open>\<open>range( lo, hi )\<close> over Python's unbounded integers; \<open>range( n )\<close> is \<open>py_range 0 n\<close>.\<close>

definition py_range :: "int \<Rightarrow> int \<Rightarrow> int list" where
  "py_range lo hi = [lo..hi - 1]"

text \<open>\<open>str\<close> of an integer, as the f-string formats it: decimal digits, \<open>-\<close> before a negative one.\<close>

definition digit_char :: "nat \<Rightarrow> char" where
  "digit_char d = char_of (of_char CHR ''0'' + d)"

function str_nat :: "nat \<Rightarrow> string" where
  "str_nat n = (if n < 10 then [digit_char n] else str_nat (n div 10) @ [digit_char (n mod 10)])"
  by pat_completeness auto
termination
  by (relation "measure id") auto

declare str_nat.simps [simp del]

definition str_int :: "int \<Rightarrow> string" where
  "str_int i = (if i < 0 then CHR ''-'' # str_nat (nat (- i)) else str_nat (nat i))"

text \<open>\<open>n.bit_length()\<close> of an integer that is not negative.\<close>

fun bit_length :: "nat \<Rightarrow> nat" where
  "bit_length n = (if n = 0 then 0 else Suc (bit_length (n div 2)))"

declare bit_length.simps [simp del]

text \<open>
  \<open>Random._randbelow( n )\<close> of CPython's \<open>random.py\<close>, which \<open>random.choice\<close> calls:
  \<^verbatim>\<open>
  k = n.bit_length()
  r = getrandbits(k)
  while r >= n:
      r = getrandbits(k)
  return r
  \<close>
  The loop rejects every value that is not below \<open>n\<close> and has no bound in the code. Here
  it runs on fuel, the number of \<open>getrandbits\<close> calls still followed: \<open>None\<close> is a call that
  has not returned within them. The second component is the generator's state afterwards.
\<close>

fun randbelow_loop :: "env \<Rightarrow> nat \<Rightarrow> nat \<Rightarrow> nat \<Rightarrow> nat \<Rightarrow> nat option \<times> nat" where
  "randbelow_loop e k n 0 pos = (None, pos)"
| "randbelow_loop e k n (Suc fuel) pos =
     (let r = draws e k pos in
      if r \<ge> n then randbelow_loop e k n fuel (Suc pos) else (Some r, Suc pos))"

definition randbelow :: "env \<Rightarrow> nat \<Rightarrow> nat \<Rightarrow> nat \<Rightarrow> nat option \<times> nat" where
  "randbelow e n fuel pos = randbelow_loop e (bit_length n) n fuel pos"

text \<open>
  \<open>random.choice( xs )\<close>: IndexError on an empty sequence, otherwise the element at the index
  \<open>_randbelow( len( xs ) )\<close>.
\<close>

definition random_choice :: "env \<Rightarrow> 'a list \<Rightarrow> world \<Rightarrow> (error + 'a) option \<times> world" where
  "random_choice e xs w =
     (if xs = [] then (Some (Inl IndexError), w)
      else case randbelow e (length xs) (choice_fuel e) (draws_used w) of
             (None, pos) \<Rightarrow> (None, w\<lparr>draws_used := pos\<rparr>)
           | (Some i, pos) \<Rightarrow> (Some (Inr (xs ! i)), w\<lparr>draws_used := pos\<rparr>))"

subsection \<open>The two library calls of the cell\<close>

definition is_whitespace :: "char \<Rightarrow> bool" where
  "is_whitespace c = (c \<in> set [CHR '' '', CHR 0x09, CHR 0x0A, CHR 0x0B, CHR 0x0C, CHR 0x0D])"

text \<open>
  Modelled from the spec: the constructor \<open>MMSeqs2Runner.__init__\<close> of
  \<open>scripts/mmseqs2.py\<close>, which is not among the sources. The notebook's comment at the call
  that uses the field says what it stores: \<open>NOTE mmseqs2_runner removes whitespace from seq\<close>.
\<close>

definition MMSeqs2Runner :: "string \<Rightarrow> string \<Rightarrow> runner" where
  "MMSeqs2Runner jobname sequence =
     \<lparr>job = jobname, seq = filter (\<lambda>c. \<not> is_whitespace c) sequence\<rparr>"

text \<open>
  Modelled from the spec: the template policy of \<open>MMSeqs2Runner.run_job\<close>
  (\<open>scripts/mmseqs2.py\<close>, not among the sources). No list or an empty list: every template
  the service reports is used. A non-empty list is an inclusion filter.
\<close>

definition select_templates :: "string list option \<Rightarrow> string list \<Rightarrow> string list" where
  "select_templates templates reported =
     (case templates of
        None \<Rightarrow> reported
      | Some ts \<Rightarrow> if ts = [] then reported else filter (\<lambda>t. t \<in> set ts) reported)"

text \<open>
  Modelled from the spec: \<open>MMSeqs2Runner.run_job\<close> (\<open>scripts/mmseqs2.py\<close>, not among the
  sources). It submits the stored sequence, and a failure of the service is raised; otherwise
  the selected templates are stored in the job's template directory and the alignment text
  and that directory's path are returned. When no reported template is in a non-empty list,
  the directory holds no template.
\<close>

definition run_job ::
  "env \<Rightarrow> runner \<Rightarrow> string list option \<Rightarrow> world \<Rightarrow> (error + string \<times> string) \<times> world" where
  "run_job e r templates w =
     (let w1 = w\<lparr>fetches := Suc (fetches w)\<rparr> in
      case service e (seq r) of
        Inl err \<Rightarrow> (Inl err, w1)
      | Inr (a3m, reported) \<Rightarrow>
          (Inr (a3m, template_dir e (job r)),
           w1\<lparr>template_dirs :=
                 (template_dirs w1)(template_dir e (job r) \<mapsto> select_templates templates reported)\<rparr>))"

text \<open>
  Modelled from the spec: \<open>predict.predict_structure_from_templates\<close>
  (\<open>scripts/predict.py\<close>, not among the sources). One forward pass of the network; an error
  of the network is raised; otherwise one file is written at the output name, and a file
  already there is overwritten.
\<close>

definition predict_structure_from_templates ::
  "env \<Rightarrow> request \<Rightarrow> world \<Rightarrow> (error + unit) \<times> world" where
  "predict_structure_from_templates e r w =
     (let w1 = w\<lparr>calls := calls w @ [r]\<rparr> in
      case network e (template_dirs w) r of
        Inl err \<Rightarrow> (Inl err, w1)
      | Inr pdb \<Rightarrow> (Inr (), w1\<lparr>files := (files w1)(req_outname r \<mapsto> pdb)\<rparr>))"

subsection \<open>The cell\<close>

text \<open>\<open>outname = f"{ n_model }_{ nseq }.pdb"\<close>\<close>

definition outname :: "int \<Rightarrow> int \<Rightarrow> string" where
  "outname n_model nseq = str_int n_model @ ''_'' @ str_int nseq @ ''.pdb''"

text \<open>The body of the inner loop.\<close>

definition iteration ::
  "env \<Rightarrow> runner \<Rightarrow> string \<Rightarrow> string \<Rightarrow> int \<Rightarrow> int \<Rightarrow> world \<Rightarrow>
     (error + unit) option \<times> world" where
  "iteration e mmseqs2_runner a3m_lines template_path nseq n_model w =
     (case random_choice e [1, 2] w of
        (None, w1) \<Rightarrow> (None, w1)
      | (Some (Inl err), w1) \<Rightarrow> (Some (Inl err), w1)
      | (Some (Inr model_id), w1) \<Rightarrow>
          (case predict_structure_from_templates e
                  \<lparr>req_seq = seq mmseqs2_runner,
                   req_outname = outname n_model nseq,
                   req_a3m_lines = a3m_lines,
                   req_template_path = template_path,
                   req_model_id = model_id,
                   req_max_msa_clusters = nseq div 2,
                   req_max_extra_msa = nseq,
                   req_max_recycles = 1\<rparr> w1 of
             (res, w2) \<Rightarrow> (Some res, w2)))"

text \<open>\<open>for n_model in range( 5 ): ...\<close> over the values still to come.\<close>

fun inner_loop ::
  "env \<Rightarrow> runner \<Rightarrow> string \<Rightarrow> string \<Rightarrow> int \<Rightarrow> int list \<Rightarrow> world \<Rightarrow>
     (error + unit) option \<times> world" where
  "inner_loop e rn a3m tp nseq [] w = (Some (Inr ()), w)"
| "inner_loop e rn a3m tp nseq (n_model # rest) w =
     (case iteration e rn a3m tp nseq n_model w of
        (None, w1) \<Rightarrow> (None, w1)
      | (Some (Inl err), w1) \<Rightarrow> (Some (Inl err), w1)
      | (Some (Inr u), w1) \<Rightarrow> inner_loop e rn a3m tp nseq rest w1)"

text \<open>\<open>for nseq in range( 16, 34 ): ...\<close> over the values still to come.\<close>

fun outer_loop ::
  "env \<Rightarrow> runner \<Rightarrow> string \<Rightarrow> string \<Rightarrow> int list \<Rightarrow> int \<Rightarrow> world \<Rightarrow>
     (error + unit) option \<times> world" where
  "outer_loop e rn a3m tp [] reps w = (Some (Inr ()), w)"
| "outer_loop e rn a3m tp (nseq # rest) reps w =
     (case inner_loop e rn a3m tp nseq (py_range 0 reps) w of
        (None, w1) \<Rightarrow> (None, w1)
      | (Some (Inl err), w1) \<Rightarrow> (Some (Inl err), w1)
      | (Some (Inr u), w1) \<Rightarrow> outer_loop e rn a3m tp rest reps w1)"

text \<open>
  The cell, from the construction of the runner to the end of the loops. Nothing in it
  catches an exception. (The archive of the output files that follows the loops is a shell
  command and is not part of the embedding.)
\<close>

definition sweep_cell ::
  "env \<Rightarrow> string \<Rightarrow> string \<Rightarrow> string list \<Rightarrow> int \<Rightarrow> int \<Rightarrow> int \<Rightarrow> world \<Rightarrow>
     (error + unit) option \<times> world" where
  "sweep_cell e jobname sequence pdbs lo hi reps w =
     (let mmseqs2_runner = MMSeqs2Runner jobname sequence in
      case run_job e mmseqs2_runner (Some pdbs) w of
        (Inl err, w1) \<Rightarrow> (Some (Inl err), w1)
      | (Inr (a3m_lines, template_path), w1) \<Rightarrow>
          outer_loop e mmseqs2_runner a3m_lines template_path (py_range lo hi) reps w1)"

text \<open>The notebook as written.\<close>

definition notebook :: "env \<Rightarrow> world \<Rightarrow> (error + unit) option \<times> world" where
  "notebook e w =
     sweep_cell e ''T4_lysozyme''
       (''MNIFEMLRIDEGLRLKIYKDTEGYYTIGIGHLLTKSPSLNAAKSELDKAIGRNCNGVIT'' @
        ''KDEAEKLFNQDVDAAVRGILRNAKLKPVYDSLDAVRRCALINMVFQMGETGVAGFTNSL'' @
        ''RMLQQKRWDEAAVNLAKSRWYNQTPNRAKRVITTFRTGTWDAYKNL'')
       [''6LB8_A'', ''6LB8_C'', ''4PK0_A'', ''6FW2_A'']
       16 34 5 w"

text \<open>The predictions a run has invoked: what it appended to the log.\<close>

definition new_calls :: "world \<Rightarrow> world \<Rightarrow> request list" where
  "new_calls w w' = drop (length (calls w)) (calls w')"

text \<open>The predictions a run of the notebook as written invokes, in order.\<close>

definition notebook_calls :: "env \<Rightarrow> world \<Rightarrow> request list" where
  "notebook_calls e w = new_calls w (snd (notebook e w))"

subsection \<open>The run as a list of requests\<close>

text \<open>
  What follows describes a run without the world: the request one iteration builds, the
  depth and repetition pairs in loop order, and the result and the requests invoked of a run
  over such pairs that starts in the generator state \<open>pos\<close> when the network's answers are
  \<open>net\<close>. The requests end where \<open>random.choice\<close> does not return or the network fails.
\<close>

definition sweep_request :: "runner \<Rightarrow> string \<Rightarrow> string \<Rightarrow> int \<Rightarrow> int \<Rightarrow> int \<Rightarrow> request" where
  "sweep_request rn a3m tp nseq n_model model_id =
     \<lparr>req_seq = seq rn, req_outname = outname n_model nseq, req_a3m_lines = a3m,
      req_template_path = tp, req_model_id = model_id, req_max_msa_clusters = nseq div 2,
      req_max_extra_msa = nseq, req_max_recycles = 1\<rparr>"

definition sweep_pairs :: "int \<Rightarrow> int \<Rightarrow> int \<Rightarrow> (int \<times> int) list" where
  "sweep_pairs lo hi reps =
     concat (map (\<lambda>nseq. map (\<lambda>n_model. (nseq, n_model)) (py_range 0 reps)) (py_range lo hi))"

fun trace ::
  "env \<Rightarrow> runner \<Rightarrow> string \<Rightarrow> string \<Rightarrow> (request \<Rightarrow> error + string) \<Rightarrow> nat \<Rightarrow> (int \<times> int) list \<Rightarrow>
     (error + unit) option \<times> request list" where
  "trace e rn a3m tp net pos [] = (Some (Inr ()), [])"
| "trace e rn a3m tp net pos ((nseq, n_model) # ps) =
     (case randbelow e 2 (choice_fuel e) pos of
        (None, pos1) \<Rightarrow> (None, [])
      | (Some i, pos1) \<Rightarrow>
          (case net (sweep_request rn a3m tp nseq n_model ([1, 2] ! i)) of
             Inl err \<Rightarrow> (Some (Inl err), [sweep_request rn a3m tp nseq n_model ([1, 2] ! i)])
           | Inr pdb \<Rightarrow>
               (case trace e rn a3m tp net pos1 ps of
                  (res, rs) \<Rightarrow> (res, sweep_request rn a3m tp nseq n_model ([1, 2] ! i) # rs))))"

text \<open>The two nested loops as one loop over the pairs.\<close>

fun flat_loop ::
  "env \<Rightarrow> runner \<Rightarrow> string \<Rightarrow> string \<Rightarrow> (int \<times> int) list \<Rightarrow> world \<Rightarrow>
     (error + unit) option \<times> world" where
  "flat_loop e rn a3m tp [] w = (Some (Inr ()), w)"
| "flat_loop e rn a3m tp ((nseq, n_model) # ps) w =
     (case iteration e rn a3m tp nseq n_model w of
        (None, w1) \<Rightarrow> (None, w1)
      | (Some (Inl err), w1) \<Rightarrow> (Some (Inl err), w1)
      | (Some (Inr u), w1) \<Rightarrow> flat_loop e rn a3m tp ps w1)"

text \<open>
  Exchanging the two values of \<open>getrandbits( 2 )\<close> that \<open>_randbelow( 2 )\<close> accepts, and the two
  variants.
\<close>

definition exchange :: "nat \<Rightarrow> nat" where
  "exchange r = (if r = 0 then 1 else if r = 1 then 0 else r)"

definition other_variant :: "int \<Rightarrow> int" where
  "other_variant v = 3 - v"

text \<open>The predictions one run of the cell invokes, in order.\<close>

definition sweep_calls ::
  "env \<Rightarrow> string \<Rightarrow> string \<Rightarrow> string list \<Rightarrow> int \<Rightarrow> int \<Rightarrow> int \<Rightarrow> world \<Rightarrow> request list" where
  "sweep_calls e jobname sequence pdbs lo hi reps w =
     new_calls w (snd (sweep_cell e jobname sequence pdbs lo hi reps w))"

text \<open>The templates an alignment bundle references: the content of its template directory.\<close>

definition bundle_templates :: "world \<Rightarrow> string \<Rightarrow> string list" where
  "bundle_templates w path = (case template_dirs w path of None \<Rightarrow> [] | Some ts \<Rightarrow> ts)"

subsection \<open>Concrete environments\<close>

text \<open>
  A world with no files, and three environments: one where the service and the network
  always answer, one where the network fails on the second repetition of depth 16, and one
  where the service is unreachable. Their generator returns 0, 1, 2, 3, 0, 1, ... and
  \<open>random.choice\<close> is followed for three \<open>getrandbits\<close> calls, which is enough there.
\<close>

definition example_world :: world where
  "example_world =
     \<lparr>files = Map.empty, template_dirs = Map.empty, draws_used = 0, fetches = 0, calls = []\<rparr>"

definition example_env :: env where
  "example_env =
     \<lparr>service = (\<lambda>s. Inr (''>101'', [''6LB8_A'', ''2LZM_A'', ''4PK0_A''])),
      network = (\<lambda>dirs r. Inr ''ATOM''),
      draws = (\<lambda>k i. i mod 4),
      template_dir = (\<lambda>jobname. jobname @ ''_env/templates''),
      choice_fuel = 3\<rparr>"

definition failing_env :: env where
  "failing_env =
     example_env\<lparr>network :=
       (\<lambda>dirs r. if req_outname r = ''1_16.pdb'' then Inl ModelInvocationError else Inr ''ATOM'')\<rparr>"

definition offline_env :: env where
  "offline_env = example_env\<lparr>service := (\<lambda>s. Inl NetworkFailure)\<rparr>"

section \<open>Decimal rendering and output names\<close>

lemma digit_char_code: "d < 10 \<Longrightarrow> (of_char (digit_char d) :: nat) = 48 + d"
  by (simp add: digit_char_def)

lemma digit_char_inj:
  assumes "a < 10" and "b < 10" and "digit_char a = digit_char b"
  shows "a = b"
proof -
  have "48 + a = (of_char (digit_char a) :: nat)"
    using assms(1) by (simp only: digit_char_code)
  also have "\<dots> = of_char (digit_char b)"
    by (simp only: assms(3))
  also have "\<dots> = 48 + b"
    using assms(2) by (simp only: digit_char_code)
  finally show ?thesis by (simp only: add_left_cancel)
qed

lemma digit_char_not_sep:
  assumes "d < 10"
  shows "digit_char d \<noteq> CHR ''_'' \<and> digit_char d \<noteq> CHR ''-''"
proof (intro conjI notI)
  have c: "(of_char (digit_char d) :: nat) = 48 + d"
    using assms by (rule digit_char_code)
  {
    assume "digit_char d = CHR ''_''"
    then have "(of_char (digit_char d) :: nat) = of_char CHR ''_''" by (simp only:)
    also have "\<dots> = 95" by simp
    finally have "48 + d = (95::nat)" using c by (simp only:)
    with assms show False by arith
  }
  {
    assume "digit_char d = CHR ''-''"
    then have "(of_char (digit_char d) :: nat) = of_char CHR ''-''" by (simp only:)
    also have "\<dots> = 45" by simp
    finally have "48 + d = (45::nat)" using c by (simp only:)
    then show False by arith
  }
qed

lemma str_nat_small: "n < 10 \<Longrightarrow> str_nat n = [digit_char n]"
  by (subst str_nat.simps) simp

lemma str_nat_big: "\<not> n < 10 \<Longrightarrow> str_nat n = str_nat (n div 10) @ [digit_char (n mod 10)]"
  by (subst str_nat.simps) simp

lemma str_nat_not_Nil: "str_nat n \<noteq> []"
  by (cases "n < 10") (simp_all add: str_nat_small str_nat_big)

lemma str_nat_chars: "c \<in> set (str_nat n) \<Longrightarrow> c \<noteq> CHR ''_'' \<and> c \<noteq> CHR ''-''"
proof (induction n rule: str_nat.induct)
  case (1 n)
  show ?case
  proof (cases "n < 10")
    case True
    with "1.prems" have c: "c = digit_char n" by (simp add: str_nat_small)
    from True show ?thesis unfolding c by (rule digit_char_not_sep)
  next
    case False
    with "1.prems" have "c \<in> set (str_nat (n div 10)) \<or> c = digit_char (n mod 10)"
      by (auto simp add: str_nat_big)
    then show ?thesis
    proof
      assume "c \<in> set (str_nat (n div 10))"
      with False show ?thesis by (rule "1.IH")
    next
      assume c: "c = digit_char (n mod 10)"
      have "n mod 10 < 10" by simp
      then show ?thesis unfolding c by (rule digit_char_not_sep)
    qed
  qed
qed

lemma str_nat_inj: "str_nat m = str_nat n \<Longrightarrow> m = n"
proof (induction m arbitrary: n rule: str_nat.induct)
  case (1 m)
  show ?case
  proof (cases "m < 10")
    case m: True
    then have sm: "str_nat m = [digit_char m]" by (rule str_nat_small)
    show ?thesis
    proof (cases "n < 10")
      case True
      then have "str_nat n = [digit_char n]" by (rule str_nat_small)
      with sm "1.prems" have "digit_char m = digit_char n" by simp
      with m True show ?thesis by (rule digit_char_inj)
    next
      case False
      then have "str_nat n = str_nat (n div 10) @ [digit_char (n mod 10)]"
        by (rule str_nat_big)
      with sm "1.prems" have "str_nat (n div 10) = []" by simp
      then show ?thesis by (simp add: str_nat_not_Nil)
    qed
  next
    case m: False
    then have sm: "str_nat m = str_nat (m div 10) @ [digit_char (m mod 10)]"
      by (rule str_nat_big)
    show ?thesis
    proof (cases "n < 10")
      case True
      then have "str_nat n = [digit_char n]" by (rule str_nat_small)
      with sm "1.prems" have "str_nat (m div 10) = []" by simp
      then show ?thesis by (simp add: str_nat_not_Nil)
    next
      case False
      then have "str_nat n = str_nat (n div 10) @ [digit_char (n mod 10)]"
        by (rule str_nat_big)
      with sm "1.prems" have eq: "str_nat (m div 10) = str_nat (n div 10)"
        and d: "digit_char (m mod 10) = digit_char (n mod 10)" by simp_all
      from m eq have q: "m div 10 = n div 10" by (rule "1.IH")
      have "m mod 10 < 10" "n mod 10 < 10" by simp_all
      from this d have r: "m mod 10 = n mod 10" by (rule digit_char_inj)
      have "m = 10 * (m div 10) + m mod 10" by simp
      also have "\<dots> = 10 * (n div 10) + n mod 10" by (simp only: q r)
      also have "\<dots> = n" by simp
      finally show ?thesis .
    qed
  qed
qed

lemma str_int_chars: "c \<in> set (str_int i) \<Longrightarrow> c \<noteq> CHR ''_''"
  by (auto simp: str_int_def dest: str_nat_chars split: if_splits)

lemma str_nat_hd: "hd (str_nat n) \<noteq> CHR ''-''"
  using str_nat_chars [of "hd (str_nat n)" n] str_nat_not_Nil [of n] by simp

lemma str_int_inj: "str_int i = str_int j \<Longrightarrow> i = j"
proof -
  assume eq: "str_int i = str_int j"
  show ?thesis
  proof (cases "i < 0")
    case i: True
    show ?thesis
    proof (cases "j < 0")
      case True
      with i eq have "nat (- i) = nat (- j)" by (simp add: str_int_def str_nat_inj)
      with i True show ?thesis by simp
    next
      case False
      with i eq have "CHR ''-'' # str_nat (nat (- i)) = str_nat (nat j)" by (simp add: str_int_def)
      then have "hd (str_nat (nat j)) = CHR ''-''" by (metis list.sel(1))
      then show ?thesis by (simp add: str_nat_hd)
    qed
  next
    case i: False
    show ?thesis
    proof (cases "j < 0")
      case True
      with i eq have "str_nat (nat i) = CHR ''-'' # str_nat (nat (- j))" by (simp add: str_int_def)
      then have "hd (str_nat (nat i)) = CHR ''-''" by (metis list.sel(1))
      then show ?thesis by (simp add: str_nat_hd)
    next
      case False
      with i eq have "nat i = nat j" by (simp add: str_int_def str_nat_inj)
      with i False show ?thesis by simp
    qed
  qed
qed

lemma split_at_sep:
  "c \<notin> set xs \<Longrightarrow> c \<notin> set xs' \<Longrightarrow> xs @ c # ys = xs' @ c # ys' \<Longrightarrow> xs = xs' \<and> ys = ys'"
proof (induction xs arbitrary: xs')
  case Nil
  then show ?case by (cases xs') auto
next
  case (Cons x xs)
  then show ?case by (cases xs') auto
qed

lemma outname_inj: "outname n d = outname n' d' \<Longrightarrow> n = n' \<and> d = d'"
proof -
  assume "outname n d = outname n' d'"
  then have eq: "str_int n @ CHR ''_'' # (str_int d @ ''.pdb'') = str_int n' @ CHR ''_'' # (str_int d' @ ''.pdb'')"
    by (simp add: outname_def)
  have "CHR ''_'' \<notin> set (str_int n)" "CHR ''_'' \<notin> set (str_int n')"
    using str_int_chars by blast+
  from split_at_sep [OF this eq] have "str_int n = str_int n'" "str_int d = str_int d'"
    by simp_all
  then show ?thesis by (simp add: str_int_inj)
qed

section \<open>The random choice\<close>

lemma bit_length_2: "bit_length 2 = 2"
  by code_simp

lemma randbelow_loop_below:
  "randbelow_loop e k n fuel pos = (Some i, pos1) \<Longrightarrow> i < n"
proof (induction fuel arbitrary: pos)
  case 0
  then show ?case by simp
next
  case (Suc fuel)
  show ?case
  proof (cases "n \<le> draws e k pos")
    case True
    with Suc.prems have "randbelow_loop e k n fuel (Suc pos) = (Some i, pos1)" by simp
    then show ?thesis by (rule Suc.IH)
  next
    case False
    with Suc.prems show ?thesis by auto
  qed
qed

lemma randbelow_loop_returns:
  "j < fuel \<Longrightarrow> draws e k (pos + j) < n \<Longrightarrow> fst (randbelow_loop e k n fuel pos) \<noteq> None"
proof (induction fuel arbitrary: pos j)
  case 0
  then show ?case by simp
next
  case (Suc fuel)
  show ?case
  proof (cases "n \<le> draws e k pos")
    case False
    then show ?thesis by simp
  next
    case True
    with Suc.prems(2) have "j \<noteq> 0" by (cases j) auto
    then obtain j' where j: "j = Suc j'" by (cases j) auto
    with Suc.prems have "j' < fuel" and "draws e k (Suc pos + j') < n" by simp_all
    then have "fst (randbelow_loop e k n fuel (Suc pos)) \<noteq> None" by (rule Suc.IH)
    with True show ?thesis by simp
  qed
qed

lemma randbelow_2_cases:
  "fst (randbelow e 2 fuel pos) = None \<or> fst (randbelow e 2 fuel pos) = Some 0 \<or>
   fst (randbelow e 2 fuel pos) = Some 1"
proof (cases "randbelow e 2 fuel pos")
  case (Pair a pos1)
  show ?thesis
  proof (cases a)
    case None
    with Pair show ?thesis by simp
  next
    case (Some i)
    with Pair have "randbelow_loop e (bit_length 2) 2 fuel pos = (Some i, pos1)"
      by (simp add: randbelow_def)
    then have "i < 2" by (rule randbelow_loop_below)
    then have "i = 0 \<or> i = 1" by arith
    with Pair Some show ?thesis by auto
  qed
qed

lemma variant_cases:
  "fst (randbelow e 2 fuel pos) = Some i \<Longrightarrow> [1, 2 :: int] ! i = 1 \<or> [1, 2 :: int] ! i = 2"
  using randbelow_2_cases [of e fuel pos] by auto

lemma random_choice_1_2:
  "random_choice e [1, 2 :: int] w =
     (case randbelow e 2 (choice_fuel e) (draws_used w) of
        (None, pos) \<Rightarrow> (None, w\<lparr>draws_used := pos\<rparr>)
      | (Some i, pos) \<Rightarrow> (Some (Inr ([1, 2] ! i)), w\<lparr>draws_used := pos\<rparr>))"
  by (simp add: random_choice_def numeral_2_eq_2)

section \<open>The loops\<close>

lemma predict_calls: "calls (snd (predict_structure_from_templates e r w)) = calls w @ [r]"
  by (simp add: predict_structure_from_templates_def Let_def split: sum.split)

lemma predict_template_dirs:
  "template_dirs (snd (predict_structure_from_templates e r w)) = template_dirs w"
  by (simp add: predict_structure_from_templates_def Let_def split: sum.split)

lemma predict_fetches:
  "fetches (snd (predict_structure_from_templates e r w)) = fetches w"
  by (simp add: predict_structure_from_templates_def Let_def split: sum.split)

lemma predict_fst:
  "fst (predict_structure_from_templates e r w) =
     (case network e (template_dirs w) r of Inl err \<Rightarrow> Inl err | Inr pdb \<Rightarrow> Inr ())"
  by (simp add: predict_structure_from_templates_def Let_def split: sum.split)

lemma predict_files:
  "network e (template_dirs w) r = Inr pdb \<Longrightarrow>
     files (snd (predict_structure_from_templates e r w)) = (files w)(req_outname r \<mapsto> pdb)"
  by (simp add: predict_structure_from_templates_def Let_def)

lemma predict_draws_used:
  "draws_used (snd (predict_structure_from_templates e r w)) = draws_used w"
  by (simp add: predict_structure_from_templates_def Let_def split: sum.split)

text \<open>One iteration, by the outcome of the choice and of the network.\<close>

lemma iteration_None:
  "randbelow e 2 (choice_fuel e) (draws_used w) = (None, pos1) \<Longrightarrow>
     iteration e rn a3m tp nseq n_model w = (None, w\<lparr>draws_used := pos1\<rparr>)"
  by (simp add: iteration_def random_choice_1_2)

lemma iteration_Some:
  "randbelow e 2 (choice_fuel e) (draws_used w) = (Some i, pos1) \<Longrightarrow>
     iteration e rn a3m tp nseq n_model w =
       (Some (fst (predict_structure_from_templates e
                 (sweep_request rn a3m tp nseq n_model ([1, 2] ! i)) (w\<lparr>draws_used := pos1\<rparr>))),
        snd (predict_structure_from_templates e
                 (sweep_request rn a3m tp nseq n_model ([1, 2] ! i)) (w\<lparr>draws_used := pos1\<rparr>)))"
  by (simp add: iteration_def random_choice_1_2 sweep_request_def split: prod.split)

lemma flat_loop_None:
  "randbelow e 2 (choice_fuel e) (draws_used w) = (None, pos1) \<Longrightarrow>
     flat_loop e rn a3m tp ((nseq, n_model) # ps) w = (None, w\<lparr>draws_used := pos1\<rparr>)"
  by (simp add: iteration_None)

lemma flat_loop_Inl:
  "randbelow e 2 (choice_fuel e) (draws_used w) = (Some i, pos1) \<Longrightarrow>
   network e (template_dirs w) (sweep_request rn a3m tp nseq n_model ([1, 2] ! i)) = Inl err \<Longrightarrow>
     flat_loop e rn a3m tp ((nseq, n_model) # ps) w =
       (Some (Inl err),
        snd (predict_structure_from_templates e
               (sweep_request rn a3m tp nseq n_model ([1, 2] ! i)) (w\<lparr>draws_used := pos1\<rparr>)))"
  by (simp add: iteration_Some predict_fst)

lemma flat_loop_Inr:
  "randbelow e 2 (choice_fuel e) (draws_used w) = (Some i, pos1) \<Longrightarrow>
   network e (template_dirs w) (sweep_request rn a3m tp nseq n_model ([1, 2] ! i)) = Inr pdb \<Longrightarrow>
     flat_loop e rn a3m tp ((nseq, n_model) # ps) w =
       flat_loop e rn a3m tp ps
         (snd (predict_structure_from_templates e
               (sweep_request rn a3m tp nseq n_model ([1, 2] ! i)) (w\<lparr>draws_used := pos1\<rparr>)))"
  by (simp add: iteration_Some predict_fst)

lemma trace_None:
  "randbelow e 2 (choice_fuel e) pos = (None, pos1) \<Longrightarrow>
     trace e rn a3m tp net pos ((nseq, n_model) # ps) = (None, [])"
  by simp

lemma trace_Inl:
  "randbelow e 2 (choice_fuel e) pos = (Some i, pos1) \<Longrightarrow>
   net (sweep_request rn a3m tp nseq n_model ([1, 2] ! i)) = Inl err \<Longrightarrow>
     trace e rn a3m tp net pos ((nseq, n_model) # ps) =
       (Some (Inl err), [sweep_request rn a3m tp nseq n_model ([1, 2] ! i)])"
  by simp

lemma trace_Inr:
  "randbelow e 2 (choice_fuel e) pos = (Some i, pos1) \<Longrightarrow>
   net (sweep_request rn a3m tp nseq n_model ([1, 2] ! i)) = Inr pdb \<Longrightarrow>
     trace e rn a3m tp net pos ((nseq, n_model) # ps) =
       (fst (trace e rn a3m tp net pos1 ps),
        sweep_request rn a3m tp nseq n_model ([1, 2] ! i) # snd (trace e rn a3m tp net pos1 ps))"
  by (simp split: prod.split)

lemma step_cases [case_names Hang Fail Go]:
  obtains (Hang) pos1 where "randbelow e 2 (choice_fuel e) pos = (None, pos1)"
  | (Fail) i pos1 err where "randbelow e 2 (choice_fuel e) pos = (Some i, pos1)"
      and "net (sweep_request rn a3m tp nseq n_model ([1, 2] ! i)) = Inl err"
  | (Go) i pos1 pdb where "randbelow e 2 (choice_fuel e) pos = (Some i, pos1)"
      and "net (sweep_request rn a3m tp nseq n_model ([1, 2] ! i)) = Inr pdb"
proof (cases "randbelow e 2 (choice_fuel e) pos")
  case (Pair a pos1)
  show ?thesis
  proof (cases a)
    case None
    with Pair show ?thesis by (simp add: Hang)
  next
    case (Some i)
    show ?thesis
    proof (cases "net (sweep_request rn a3m tp nseq n_model ([1, 2] ! i))")
      case (Inl err)
      with Pair Some show ?thesis by (simp add: Fail)
    next
      case (Inr pdb)
      with Pair Some show ?thesis by (simp add: Go)
    qed
  qed
qed

lemma flat_loop_trace:
  "fst (flat_loop e rn a3m tp ps w) =
     fst (trace e rn a3m tp (network e (template_dirs w)) (draws_used w) ps) \<and>
   calls (snd (flat_loop e rn a3m tp ps w)) =
     calls w @ snd (trace e rn a3m tp (network e (template_dirs w)) (draws_used w) ps) \<and>
   template_dirs (snd (flat_loop e rn a3m tp ps w)) = template_dirs w \<and>
   fetches (snd (flat_loop e rn a3m tp ps w)) = fetches w"
proof (induction ps arbitrary: w)
  case Nil
  show ?case by simp
next
  case (Cons p ps)
  obtain nseq n_model where p: "p = (nseq, n_model)" by (cases p)
  show ?case
  proof (cases rule: step_cases [where e = e and pos = "draws_used w" and net = "network e (template_dirs w)"
        and rn = rn and ?a3m.0 = a3m and tp = tp and nseq = nseq and n_model = n_model])
    case (Hang pos1)
    show ?thesis unfolding p flat_loop_None [OF Hang] trace_None [OF Hang] by simp
  next
    case (Fail i pos1 err)
    show ?thesis unfolding p flat_loop_Inl [OF Fail] trace_Inl [where net = "network e (template_dirs w)", OF Fail]
      by (simp add: predict_calls predict_template_dirs predict_fetches)
  next
    case (Go i pos1 pdb)
    let ?r = "sweep_request rn a3m tp nseq n_model ([1, 2] ! i)"
    let ?w1 = "snd (predict_structure_from_templates e ?r (w\<lparr>draws_used := pos1\<rparr>))"
    have w1: "template_dirs ?w1 = template_dirs w" "draws_used ?w1 = pos1"
      "calls ?w1 = calls w @ [?r]" "fetches ?w1 = fetches w"
      by (simp_all add: predict_template_dirs predict_draws_used predict_calls predict_fetches)
    from Cons.IH [of ?w1] show ?thesis
      unfolding p flat_loop_Inr [OF Go] trace_Inr [where net = "network e (template_dirs w)", OF Go] w1 by simp
  qed
qed

lemma flat_loop_files:
  "fst (flat_loop e rn a3m tp ps w) = Some (Inr ()) \<Longrightarrow>
     dom (files (snd (flat_loop e rn a3m tp ps w))) =
       dom (files w) \<union> (\<lambda>(nseq, n_model). outname n_model nseq) ` set ps"
proof (induction ps arbitrary: w)
  case Nil
  show ?case by simp
next
  case (Cons p ps)
  obtain nseq n_model where p: "p = (nseq, n_model)" by (cases p)
  show ?case
  proof (cases rule: step_cases [where e = e and pos = "draws_used w" and net = "network e (template_dirs w)"
        and rn = rn and ?a3m.0 = a3m and tp = tp and nseq = nseq and n_model = n_model])
    case (Hang pos1)
    with Cons.prems show ?thesis unfolding p flat_loop_None [OF Hang] by simp
  next
    case (Fail i pos1 err)
    with Cons.prems show ?thesis unfolding p flat_loop_Inl [OF Fail] by simp
  next
    case (Go i pos1 pdb)
    let ?r = "sweep_request rn a3m tp nseq n_model ([1, 2] ! i)"
    let ?w1 = "snd (predict_structure_from_templates e ?r (w\<lparr>draws_used := pos1\<rparr>))"
    from Cons.prems have "fst (flat_loop e rn a3m tp ps ?w1) = Some (Inr ())"
      unfolding p flat_loop_Inr [OF Go] .
    then have "dom (files (snd (flat_loop e rn a3m tp ps ?w1))) =
       dom (files ?w1) \<union> (\<lambda>(nseq, n_model). outname n_model nseq) ` set ps"
      by (rule Cons.IH)
    moreover from Go(2) have "files ?w1 = (files w)(req_outname ?r \<mapsto> pdb)"
      by (simp add: predict_files)
    moreover have "req_outname ?r = outname n_model nseq" by (simp add: sweep_request_def)
    ultimately show ?thesis unfolding p flat_loop_Inr [OF Go] by auto
  qed
qed

lemma flat_loop_append:
  "flat_loop e rn a3m tp (ps @ qs) w =
     (case flat_loop e rn a3m tp ps w of
        (None, w1) \<Rightarrow> (None, w1)
      | (Some (Inl err), w1) \<Rightarrow> (Some (Inl err), w1)
      | (Some (Inr u), w1) \<Rightarrow> flat_loop e rn a3m tp qs w1)"
  by (induction ps arbitrary: w) (auto split: prod.split sum.split option.split)

lemma inner_loop_flat:
  "inner_loop e rn a3m tp nseq ns w = flat_loop e rn a3m tp (map (\<lambda>n_model. (nseq, n_model)) ns) w"
  by (induction ns arbitrary: w) (auto split: prod.split sum.split option.split)

lemma outer_loop_flat:
  "outer_loop e rn a3m tp ds reps w =
     flat_loop e rn a3m tp
       (concat (map (\<lambda>nseq. map (\<lambda>n_model. (nseq, n_model)) (py_range 0 reps)) ds)) w"
  by (induction ds arbitrary: w)
     (auto simp: flat_loop_append inner_loop_flat split: prod.split sum.split option.split)

section \<open>The requests of a run\<close>

lemma trace_fields:
  "i < length (snd (trace e rn a3m tp net pos ps)) \<Longrightarrow>
     i < length ps \<and>
     snd (trace e rn a3m tp net pos ps) ! i =
       sweep_request rn a3m tp (fst (ps ! i)) (snd (ps ! i))
         (req_model_id (snd (trace e rn a3m tp net pos ps) ! i)) \<and>
     (req_model_id (snd (trace e rn a3m tp net pos ps) ! i) = 1 \<or>
      req_model_id (snd (trace e rn a3m tp net pos ps) ! i) = 2)"
proof (induction ps arbitrary: pos i)
  case Nil
  then show ?case by simp
next
  case (Cons p ps)
  obtain nseq n_model where p: "p = (nseq, n_model)" by (cases p)
  show ?case
  proof (cases rule: step_cases [where e = e and pos = pos and net = net
        and rn = rn and ?a3m.0 = a3m and tp = tp and nseq = nseq and n_model = n_model])
    case (Hang pos1)
    with Cons.prems show ?thesis unfolding p trace_None [OF Hang] by simp
  next
    case (Fail j pos1 err)
    from Fail(1) have v: "[1, 2 :: int] ! j = 1 \<or> [1, 2 :: int] ! j = 2"
      using variant_cases [of e "choice_fuel e" pos j] by simp
    from Cons.prems have "i = 0" unfolding p trace_Inl [where net = net, OF Fail] by simp
    with v show ?thesis unfolding p trace_Inl [where net = net, OF Fail] by (simp add: sweep_request_def)
  next
    case (Go j pos1 pdb)
    from Go(1) have v: "[1, 2 :: int] ! j = 1 \<or> [1, 2 :: int] ! j = 2"
      using variant_cases [of e "choice_fuel e" pos j] by simp
    show ?thesis
    proof (cases i)
      case 0
      with v show ?thesis unfolding p trace_Inr [where net = net, OF Go] by (simp add: sweep_request_def)
    next
      case (Suc i')
      with Cons.prems have "i' < length (snd (trace e rn a3m tp net pos1 ps))"
        unfolding p trace_Inr [where net = net, OF Go] by simp
      from Cons.IH [OF this] Suc show ?thesis unfolding p trace_Inr [where net = net, OF Go] by simp
    qed
  qed
qed

lemma trace_complete:
  "fst (trace e rn a3m tp net pos ps) = Some (Inr ()) \<Longrightarrow>
     length (snd (trace e rn a3m tp net pos ps)) = length ps"
proof (induction ps arbitrary: pos)
  case Nil
  show ?case by simp
next
  case (Cons p ps)
  obtain nseq n_model where p: "p = (nseq, n_model)" by (cases p)
  show ?case
  proof (cases rule: step_cases [where e = e and pos = pos and net = net
        and rn = rn and ?a3m.0 = a3m and tp = tp and nseq = nseq and n_model = n_model])
    case (Hang pos1)
    with Cons.prems show ?thesis unfolding p trace_None [OF Hang] by simp
  next
    case (Fail j pos1 err)
    with Cons.prems show ?thesis unfolding p trace_Inl [where net = net, OF Fail] by simp
  next
    case (Go j pos1 pdb)
    from Cons.prems have "fst (trace e rn a3m tp net pos1 ps) = Some (Inr ())"
      unfolding p trace_Inr [where net = net, OF Go] by simp
    from Cons.IH [OF this] show ?thesis unfolding p trace_Inr [where net = net, OF Go] by simp
  qed
qed

lemma trace_failure_is_last:
  "i < length (snd (trace e rn a3m tp net pos ps)) \<Longrightarrow>
   net (snd (trace e rn a3m tp net pos ps) ! i) = Inl err \<Longrightarrow>
     fst (trace e rn a3m tp net pos ps) = Some (Inl err) \<and>
     Suc i = length (snd (trace e rn a3m tp net pos ps))"
proof (induction ps arbitrary: pos i)
  case Nil
  then show ?case by simp
next
  case (Cons p ps)
  obtain nseq n_model where p: "p = (nseq, n_model)" by (cases p)
  show ?case
  proof (cases rule: step_cases [where e = e and pos = pos and net = net
        and rn = rn and ?a3m.0 = a3m and tp = tp and nseq = nseq and n_model = n_model])
    case (Hang pos1)
    with Cons.prems show ?thesis unfolding p trace_None [OF Hang] by simp
  next
    case (Fail j pos1 err')
    with Cons.prems show ?thesis unfolding p trace_Inl [where net = net, OF Fail] by simp
  next
    case (Go j pos1 pdb)
    show ?thesis
    proof (cases i)
      case 0
      with Cons.prems Go(2) show ?thesis unfolding p trace_Inr [where net = net, OF Go] by simp
    next
      case (Suc i')
      with Cons.prems have "i' < length (snd (trace e rn a3m tp net pos1 ps))"
        and "net (snd (trace e rn a3m tp net pos1 ps) ! i') = Inl err"
        unfolding p trace_Inr [where net = net, OF Go] by simp_all
      from Cons.IH [OF this] Suc show ?thesis unfolding p trace_Inr [where net = net, OF Go] by simp
    qed
  qed
qed

lemma trace_succeeds:
  assumes n: "\<And>r. \<exists>pdb. net r = Inr pdb"
    and c: "\<And>pos. fst (randbelow e 2 (choice_fuel e) pos) \<noteq> None"
  shows "fst (trace e rn a3m tp net pos ps) = Some (Inr ())"
proof (induction ps arbitrary: pos)
  case Nil
  show ?case by simp
next
  case (Cons p ps)
  obtain nseq n_model where p: "p = (nseq, n_model)" by (cases p)
  show ?case
  proof (cases rule: step_cases [where e = e and pos = pos and net = net
        and rn = rn and ?a3m.0 = a3m and tp = tp and nseq = nseq and n_model = n_model])
    case (Hang pos1)
    with c [of pos] show ?thesis by simp
  next
    case (Fail j pos1 err)
    with n [of "sweep_request rn a3m tp nseq n_model ([1, 2] ! j)"] show ?thesis by simp
  next
    case (Go j pos1 pdb)
    from Cons.IH [of pos1] show ?thesis unfolding p trace_Inr [where net = net, OF Go] by simp
  qed
qed

lemma length_py_range: "length (py_range lo hi) = nat (hi - lo)"
  by (simp add: py_range_def)

lemma distinct_py_range: "distinct (py_range lo hi)"
  by (simp add: py_range_def)

lemma set_py_range: "set (py_range lo hi) = {d. lo \<le> d \<and> d < hi}"
  by (auto simp: py_range_def)

lemma sweep_pairs_product: "sweep_pairs lo hi reps = List.product (py_range lo hi) (py_range 0 reps)"
  by (simp add: sweep_pairs_def product_concat_map)

lemma length_sweep_pairs: "length (sweep_pairs lo hi reps) = nat (hi - lo) * nat reps"
  by (simp add: sweep_pairs_product length_py_range)

lemma distinct_sweep_pairs: "distinct (sweep_pairs lo hi reps)"
  by (simp add: sweep_pairs_product distinct_product distinct_py_range)

lemma set_sweep_pairs:
  "set (sweep_pairs lo hi reps) = {(d, n). lo \<le> d \<and> d < hi \<and> 0 \<le> n \<and> n < reps}"
  by (auto simp: sweep_pairs_def set_py_range)

lemma distinct_outnames:
  "distinct ps \<Longrightarrow> distinct (map (\<lambda>(nseq, n_model). outname n_model nseq) ps)"
  by (auto simp: distinct_map inj_on_def dest: outname_inj)

lemma run_job_calls: "calls (snd (run_job e rn ts w)) = calls w"
  by (simp add: run_job_def Let_def split: sum.split prod.split)

lemma run_job_draws_used: "draws_used (snd (run_job e rn ts w)) = draws_used w"
  by (simp add: run_job_def Let_def split: sum.split prod.split)

lemma run_job_fetches: "fetches (snd (run_job e rn ts w)) = Suc (fetches w)"
  by (simp add: run_job_def Let_def split: sum.split prod.split)

lemma run_job_files: "files (snd (run_job e rn ts w)) = files w"
  by (simp add: run_job_def Let_def split: sum.split prod.split)

lemma job_MMSeqs2Runner: "job (MMSeqs2Runner j s) = j"
  by (simp add: MMSeqs2Runner_def)

lemma sweep_cell_fail:
  "fst (run_job e (MMSeqs2Runner j s) (Some pdbs) w) = Inl err \<Longrightarrow>
     sweep_cell e j s pdbs lo hi reps w =
       (Some (Inl err), snd (run_job e (MMSeqs2Runner j s) (Some pdbs) w))"
  by (cases "run_job e (MMSeqs2Runner j s) (Some pdbs) w") (simp add: sweep_cell_def)

lemma sweep_cell_ok:
  "fst (run_job e (MMSeqs2Runner j s) (Some pdbs) w) = Inr (a3m, tp) \<Longrightarrow>
     sweep_cell e j s pdbs lo hi reps w =
       flat_loop e (MMSeqs2Runner j s) a3m tp (sweep_pairs lo hi reps)
         (snd (run_job e (MMSeqs2Runner j s) (Some pdbs) w))"
  by (cases "run_job e (MMSeqs2Runner j s) (Some pdbs) w")
     (simp add: sweep_cell_def outer_loop_flat sweep_pairs_def)

lemma sweep_fail:
  assumes "fst (run_job e (MMSeqs2Runner j s) (Some pdbs) w) = Inl err"
  shows "fst (sweep_cell e j s pdbs lo hi reps w) = Some (Inl err)"
    and "sweep_calls e j s pdbs lo hi reps w = []"
  using assms by (simp_all add: sweep_cell_fail sweep_calls_def new_calls_def run_job_calls)

lemma sweep_ok:
  assumes "fst (run_job e (MMSeqs2Runner j s) (Some pdbs) w) = Inr (a3m, tp)"
  shows "fst (sweep_cell e j s pdbs lo hi reps w) =
           fst (trace e (MMSeqs2Runner j s) a3m tp
             (network e (template_dirs (snd (run_job e (MMSeqs2Runner j s) (Some pdbs) w))))
             (draws_used w) (sweep_pairs lo hi reps))"
    and "sweep_calls e j s pdbs lo hi reps w =
           snd (trace e (MMSeqs2Runner j s) a3m tp
             (network e (template_dirs (snd (run_job e (MMSeqs2Runner j s) (Some pdbs) w))))
             (draws_used w) (sweep_pairs lo hi reps))"
    and "template_dirs (snd (sweep_cell e j s pdbs lo hi reps w)) =
           template_dirs (snd (run_job e (MMSeqs2Runner j s) (Some pdbs) w))"
  using assms
  by (simp_all add: sweep_cell_ok sweep_calls_def new_calls_def flat_loop_trace
        run_job_calls run_job_draws_used)

lemma sweep_fetches: "fetches (snd (sweep_cell e j s pdbs lo hi reps w)) = Suc (fetches w)"
proof (cases "fst (run_job e (MMSeqs2Runner j s) (Some pdbs) w)")
  case (Inl err)
  then show ?thesis by (simp add: sweep_cell_fail run_job_fetches)
next
  case (Inr b)
  then show ?thesis by (cases b) (simp add: sweep_cell_ok flat_loop_trace run_job_fetches)
qed

lemma sweep_calls_nonempty_ok:
  assumes "i < length (sweep_calls e j s pdbs lo hi reps w)"
  shows "\<exists>a3m tp. fst (run_job e (MMSeqs2Runner j s) (Some pdbs) w) = Inr (a3m, tp)"
proof (cases "fst (run_job e (MMSeqs2Runner j s) (Some pdbs) w)")
  case (Inl err)
  then have "sweep_calls e j s pdbs lo hi reps w = []" by (rule sweep_fail(2))
  with assms show ?thesis by simp
next
  case (Inr b)
  then show ?thesis by (cases b) simp
qed

lemma sweep_calls_nth:
  assumes ok: "fst (run_job e (MMSeqs2Runner j s) (Some pdbs) w) = Inr (a3m, tp)"
    and i: "i < length (sweep_calls e j s pdbs lo hi reps w)"
  shows "i < length (sweep_pairs lo hi reps)"
    and "req_seq (sweep_calls e j s pdbs lo hi reps w ! i) = seq (MMSeqs2Runner j s)"
    and "req_outname (sweep_calls e j s pdbs lo hi reps w ! i) =
           outname (snd (sweep_pairs lo hi reps ! i)) (fst (sweep_pairs lo hi reps ! i))"
    and "req_a3m_lines (sweep_calls e j s pdbs lo hi reps w ! i) = a3m"
    and "req_template_path (sweep_calls e j s pdbs lo hi reps w ! i) = tp"
    and "req_max_msa_clusters (sweep_calls e j s pdbs lo hi reps w ! i) =
           fst (sweep_pairs lo hi reps ! i) div 2"
    and "req_max_extra_msa (sweep_calls e j s pdbs lo hi reps w ! i) =
           fst (sweep_pairs lo hi reps ! i)"
    and "req_max_recycles (sweep_calls e j s pdbs lo hi reps w ! i) = 1"
    and "req_model_id (sweep_calls e j s pdbs lo hi reps w ! i) = 1 \<or>
         req_model_id (sweep_calls e j s pdbs lo hi reps w ! i) = 2"
proof -
  let ?c = "sweep_calls e j s pdbs lo hi reps w"
  let ?ps = "sweep_pairs lo hi reps"
  have c: "?c = snd (trace e (MMSeqs2Runner j s) a3m tp
             (network e (template_dirs (snd (run_job e (MMSeqs2Runner j s) (Some pdbs) w))))
             (draws_used w) ?ps)"
    using ok by (rule sweep_ok(2))
  from i have "i < length (snd (trace e (MMSeqs2Runner j s) a3m tp
             (network e (template_dirs (snd (run_job e (MMSeqs2Runner j s) (Some pdbs) w))))
             (draws_used w) ?ps))"
    unfolding c .
  from trace_fields [OF this]
  have l: "i < length ?ps"
    and eq: "?c ! i = sweep_request (MMSeqs2Runner j s) a3m tp (fst (?ps ! i)) (snd (?ps ! i))
               (req_model_id (?c ! i))"
    and v: "req_model_id (?c ! i) = 1 \<or> req_model_id (?c ! i) = 2"
    unfolding c [symmetric] by blast+
  show "i < length ?ps" by (rule l)
  show "req_model_id (?c ! i) = 1 \<or> req_model_id (?c ! i) = 2" by (rule v)
  show "req_seq (?c ! i) = seq (MMSeqs2Runner j s)"
    using arg_cong [OF eq, of req_seq] by (simp add: sweep_request_def)
  show "req_outname (?c ! i) = outname (snd (?ps ! i)) (fst (?ps ! i))"
    using arg_cong [OF eq, of req_outname] by (simp add: sweep_request_def)
  show "req_a3m_lines (?c ! i) = a3m"
    using arg_cong [OF eq, of req_a3m_lines] by (simp add: sweep_request_def)
  show "req_template_path (?c ! i) = tp"
    using arg_cong [OF eq, of req_template_path] by (simp add: sweep_request_def)
  show "req_max_msa_clusters (?c ! i) = fst (?ps ! i) div 2"
    using arg_cong [OF eq, of req_max_msa_clusters] by (simp add: sweep_request_def)
  show "req_max_extra_msa (?c ! i) = fst (?ps ! i)"
    using arg_cong [OF eq, of req_max_extra_msa] by (simp add: sweep_request_def)
  show "req_max_recycles (?c ! i) = 1"
    using arg_cong [OF eq, of req_max_recycles] by (simp add: sweep_request_def)
qed

lemma sweep_calls_complete:
  assumes "fst (sweep_cell e j s pdbs lo hi reps w) = Some (Inr ())"
  shows "\<exists>a3m tp. fst (run_job e (MMSeqs2Runner j s) (Some pdbs) w) = Inr (a3m, tp)"
    and "length (sweep_calls e j s pdbs lo hi reps w) = length (sweep_pairs lo hi reps)"
proof -
  show ex: "\<exists>a3m tp. fst (run_job e (MMSeqs2Runner j s) (Some pdbs) w) = Inr (a3m, tp)"
  proof (cases "fst (run_job e (MMSeqs2Runner j s) (Some pdbs) w)")
    case (Inl err)
    then have "fst (sweep_cell e j s pdbs lo hi reps w) = Some (Inl err)" by (rule sweep_fail(1))
    with assms show ?thesis by simp
  next
    case (Inr b)
    then show ?thesis by (cases b) simp
  qed
  then obtain a3m tp where ok: "fst (run_job e (MMSeqs2Runner j s) (Some pdbs) w) = Inr (a3m, tp)"
    by blast
  from assms have "fst (trace e (MMSeqs2Runner j s) a3m tp
             (network e (template_dirs (snd (run_job e (MMSeqs2Runner j s) (Some pdbs) w))))
             (draws_used w) (sweep_pairs lo hi reps)) = Some (Inr ())"
    unfolding sweep_ok(1) [OF ok] .
  then show "length (sweep_calls e j s pdbs lo hi reps w) = length (sweep_pairs lo hi reps)"
    unfolding sweep_ok(2) [OF ok] by (rule trace_complete)
qed

lemma sweep_calls_keys:
  "map (\<lambda>r. (req_max_extra_msa r, req_outname r)) (sweep_calls e j s pdbs lo hi reps w) =
     map (\<lambda>(nseq, n_model). (nseq, outname n_model nseq))
       (take (length (sweep_calls e j s pdbs lo hi reps w)) (sweep_pairs lo hi reps))"
proof (rule nth_equalityI)
  have "\<And>i. i < length (sweep_calls e j s pdbs lo hi reps w) \<Longrightarrow> i < length (sweep_pairs lo hi reps)"
    using sweep_calls_nonempty_ok sweep_calls_nth(1) by blast
  then have le: "length (sweep_calls e j s pdbs lo hi reps w) \<le> length (sweep_pairs lo hi reps)"
    by (meson not_less order_refl less_le_trans less_irrefl)
  then show "length (map (\<lambda>r. (req_max_extra_msa r, req_outname r)) (sweep_calls e j s pdbs lo hi reps w)) =
    length (map (\<lambda>(nseq, n_model). (nseq, outname n_model nseq))
       (take (length (sweep_calls e j s pdbs lo hi reps w)) (sweep_pairs lo hi reps)))"
    by simp
  fix i
  assume "i < length (map (\<lambda>r. (req_max_extra_msa r, req_outname r)) (sweep_calls e j s pdbs lo hi reps w))"
  then have i: "i < length (sweep_calls e j s pdbs lo hi reps w)" by simp
  then obtain a3m tp where ok: "fst (run_job e (MMSeqs2Runner j s) (Some pdbs) w) = Inr (a3m, tp)"
    using sweep_calls_nonempty_ok by blast
  from i le sweep_calls_nth(3) [OF ok i] sweep_calls_nth(7) [OF ok i]
  show "map (\<lambda>r. (req_max_extra_msa r, req_outname r)) (sweep_calls e j s pdbs lo hi reps w) ! i =
    map (\<lambda>(nseq, n_model). (nseq, outname n_model nseq))
       (take (length (sweep_calls e j s pdbs lo hi reps w)) (sweep_pairs lo hi reps)) ! i"
    by (simp add: case_prod_beta)
qed

lemma sweep_calls_outnames:
  "map req_outname (sweep_calls e j s pdbs lo hi reps w) =
     take (length (sweep_calls e j s pdbs lo hi reps w))
       (map (\<lambda>(nseq, n_model). outname n_model nseq) (sweep_pairs lo hi reps))"
proof -
  have "map req_outname (sweep_calls e j s pdbs lo hi reps w) =
      map snd (map (\<lambda>r. (req_max_extra_msa r, req_outname r)) (sweep_calls e j s pdbs lo hi reps w))"
    by simp
  also have "\<dots> = map snd (map (\<lambda>(nseq, n_model). (nseq, outname n_model nseq))
       (take (length (sweep_calls e j s pdbs lo hi reps w)) (sweep_pairs lo hi reps)))"
    by (simp only: sweep_calls_keys)
  also have "\<dots> = take (length (sweep_calls e j s pdbs lo hi reps w))
       (map (\<lambda>(nseq, n_model). outname n_model nseq) (sweep_pairs lo hi reps))"
    by (simp add: take_map case_prod_beta comp_def)
  finally show ?thesis .
qed

lemma sweep_calls_distinct: "distinct (map req_outname (sweep_calls e j s pdbs lo hi reps w))"
  unfolding sweep_calls_outnames
  by (simp add: distinct_outnames distinct_sweep_pairs)

lemma sweep_calls_depth_bounds:
  assumes "r \<in> set (sweep_calls e j s pdbs lo hi reps w)"
  shows "req_max_msa_clusters r = req_max_extra_msa r div 2"
    and "lo \<le> req_max_extra_msa r" and "req_max_extra_msa r < hi"
    and "req_seq r = seq (MMSeqs2Runner j s)"
    and "req_max_recycles r = 1"
proof -
  from assms obtain i where i: "i < length (sweep_calls e j s pdbs lo hi reps w)"
    and r: "r = sweep_calls e j s pdbs lo hi reps w ! i"
    by (auto simp: in_set_conv_nth)
  from i obtain a3m tp where ok: "fst (run_job e (MMSeqs2Runner j s) (Some pdbs) w) = Inr (a3m, tp)"
    using sweep_calls_nonempty_ok by blast
  note n = sweep_calls_nth [OF ok i]
  from n(1) have "sweep_pairs lo hi reps ! i \<in> set (sweep_pairs lo hi reps)" by simp
  then have b: "lo \<le> fst (sweep_pairs lo hi reps ! i)" "fst (sweep_pairs lo hi reps ! i) < hi"
    by (auto simp: set_sweep_pairs)
  show "req_max_msa_clusters r = req_max_extra_msa r div 2" unfolding r n(6) n(7) ..
  show "lo \<le> req_max_extra_msa r" unfolding r n(7) by (rule b(1))
  show "req_max_extra_msa r < hi" unfolding r n(7) by (rule b(2))
  show "req_seq r = seq (MMSeqs2Runner j s)" unfolding r by (rule n(2))
  show "req_max_recycles r = 1" unfolding r by (rule n(8))
qed

lemma sweep_calls_bundle:
  assumes ok: "fst (run_job e (MMSeqs2Runner j s) (Some pdbs) w) = Inr (a3m, tp)"
    and "r \<in> set (sweep_calls e j s pdbs lo hi reps w)"
  shows "req_a3m_lines r = a3m" and "req_template_path r = tp"
proof -
  from assms(2) obtain i where i: "i < length (sweep_calls e j s pdbs lo hi reps w)"
    and r: "r = sweep_calls e j s pdbs lo hi reps w ! i"
    by (auto simp: in_set_conv_nth)
  show "req_a3m_lines r = a3m" unfolding r using ok i by (rule sweep_calls_nth(4))
  show "req_template_path r = tp" unfolding r using ok i by (rule sweep_calls_nth(5))
qed

lemma sweep_complete_outnames:
  assumes "fst (sweep_cell e j s pdbs lo hi reps w) = Some (Inr ())"
  shows "map req_outname (sweep_calls e j s pdbs lo hi reps w) =
           map (\<lambda>(nseq, n_model). outname n_model nseq) (sweep_pairs lo hi reps)"
  unfolding sweep_calls_outnames sweep_calls_complete(2) [OF assms] by simp

lemma sweep_complete_files:
  assumes "fst (sweep_cell e j s pdbs lo hi reps w) = Some (Inr ())"
  shows "dom (files (snd (sweep_cell e j s pdbs lo hi reps w))) =
           dom (files w) \<union> set (map req_outname (sweep_calls e j s pdbs lo hi reps w))"
proof -
  from assms obtain a3m tp where
    ok: "fst (run_job e (MMSeqs2Runner j s) (Some pdbs) w) = Inr (a3m, tp)"
    using sweep_calls_complete(1) by blast
  let ?w1 = "snd (run_job e (MMSeqs2Runner j s) (Some pdbs) w)"
  have cell: "sweep_cell e j s pdbs lo hi reps w =
       flat_loop e (MMSeqs2Runner j s) a3m tp (sweep_pairs lo hi reps) ?w1"
    using ok by (rule sweep_cell_ok)
  with assms have "fst (flat_loop e (MMSeqs2Runner j s) a3m tp (sweep_pairs lo hi reps) ?w1) = Some (Inr ())"
    by simp
  then have "dom (files (snd (flat_loop e (MMSeqs2Runner j s) a3m tp (sweep_pairs lo hi reps) ?w1))) =
       dom (files ?w1) \<union> (\<lambda>(nseq, n_model). outname n_model nseq) ` set (sweep_pairs lo hi reps)"
    by (rule flat_loop_files)
  with cell sweep_complete_outnames [OF assms] show ?thesis
    by (simp add: run_job_files)
qed

text \<open>
  A run returns when the service and the network answer and every call of \<open>random.choice\<close>
  meets a value below 2 within its fuel.
\<close>

lemma sweep_succeeds:
  assumes s: "service e (seq (MMSeqs2Runner j s)) = Inr (a3m, reported)"
    and n: "\<And>dirs r. \<exists>pdb. network e dirs r = Inr pdb"
    and c: "\<And>pos. fst (randbelow e 2 (choice_fuel e) pos) \<noteq> None"
  shows "fst (sweep_cell e j s pdbs lo hi reps w) = Some (Inr ())"
    and "length (sweep_calls e j s pdbs lo hi reps w) = length (sweep_pairs lo hi reps)"
proof -
  from s have ok: "fst (run_job e (MMSeqs2Runner j s) (Some pdbs) w) = Inr (a3m, template_dir e j)"
    by (simp add: run_job_def Let_def job_MMSeqs2Runner)
  let ?net = "network e (template_dirs (snd (run_job e (MMSeqs2Runner j s) (Some pdbs) w)))"
  have all: "\<And>r. \<exists>pdb. ?net r = Inr pdb" by (rule n)
  show r: "fst (sweep_cell e j s pdbs lo hi reps w) = Some (Inr ())"
    unfolding sweep_ok(1) [OF ok] using all c by (rule trace_succeeds)
  then show "length (sweep_calls e j s pdbs lo hi reps w) = length (sweep_pairs lo hi reps)"
    by (rule sweep_calls_complete(2))
qed

lemma notebook_calls_sweep:
  "notebook_calls e w =
     sweep_calls e ''T4_lysozyme''
       (''MNIFEMLRIDEGLRLKIYKDTEGYYTIGIGHLLTKSPSLNAAKSELDKAIGRNCNGVIT'' @
        ''KDEAEKLFNQDVDAAVRGILRNAKLKPVYDSLDAVRRCALINMVFQMGETGVAGFTNSL'' @
        ''RMLQQKRWDEAAVNLAKSRWYNQTPNRAKRVITTFRTGTWDAYKNL'')
       [''6LB8_A'', ''6LB8_C'', ''4PK0_A'', ''6FW2_A''] 16 34 5 w"
  unfolding notebook_calls_def notebook_def sweep_calls_def ..

lemma sweep_pairs_keys:
  "map (\<lambda>(nseq, n_model). (nseq, outname n_model nseq)) (sweep_pairs lo hi reps) =
     [(nseq, outname n_model nseq). nseq \<leftarrow> py_range lo hi, n_model \<leftarrow> py_range 0 reps]"
  by (simp add: sweep_pairs_def map_concat comp_def)

section \<open>Runs in the concrete environments\<close>

text \<open>
  Where the service and the network always answer and the generator returns a value below 2
  at least every third time, a run completes. The small sweep over the depths 16 and 17 with
  two repetitions is evaluated in full.
\<close>

lemma randbelow_2_returns:
  assumes "3 \<le> fuel"
    and "draws e 2 pos < 2 \<or> draws e 2 (Suc pos) < 2 \<or> draws e 2 (Suc (Suc pos)) < 2"
  shows "fst (randbelow e 2 fuel pos) \<noteq> None"
proof -
  from assms(2) obtain j where "j < 3" and "draws e 2 (pos + j) < 2"
    by (metis add_0_right add_Suc_right numeral_3_eq_3 zero_less_Suc lessI Suc_lessD)
  with assms(1) have "j < fuel" by simp
  from this \<open>draws e 2 (pos + j) < 2\<close> show ?thesis
    unfolding randbelow_def bit_length_2 by (rule randbelow_loop_returns)
qed

lemma example_service:
  "service (example_env\<lparr>draws := d\<rparr>) x = Inr (''>101'', [''6LB8_A'', ''2LZM_A'', ''4PK0_A''])"
  by (simp add: example_env_def)

lemma example_network: "\<exists>pdb. network (example_env\<lparr>draws := d\<rparr>) dirs r = Inr pdb"
  by (simp add: example_env_def)

lemma example_env_draws: "example_env\<lparr>draws := (\<lambda>k i. i mod 4)\<rparr> = example_env"
  by (simp add: example_env_def)

lemma example_choice:
  assumes "\<And>pos. d 2 pos < 2 \<or> d 2 (Suc pos) < 2 \<or> d 2 (Suc (Suc pos)) < 2"
  shows "fst (randbelow (example_env\<lparr>draws := d\<rparr>) 2 (choice_fuel (example_env\<lparr>draws := d\<rparr>)) pos) \<noteq> None"
proof (rule randbelow_2_returns)
  show "3 \<le> choice_fuel (example_env\<lparr>draws := d\<rparr>)" by (simp add: example_env_def)
  show "draws (example_env\<lparr>draws := d\<rparr>) 2 pos < 2 \<or>
    draws (example_env\<lparr>draws := d\<rparr>) 2 (Suc pos) < 2 \<or>
    draws (example_env\<lparr>draws := d\<rparr>) 2 (Suc (Suc pos)) < 2"
    using assms [of pos] by simp
qed

lemma mod_4_window: "(pos::nat) mod 4 < 2 \<or> Suc pos mod 4 < 2 \<or> Suc (Suc pos) mod 4 < 2"
  by presburger

lemma example_sweep:
  assumes "\<And>pos. d 2 pos < 2 \<or> d 2 (Suc pos) < 2 \<or> d 2 (Suc (Suc pos)) < 2"
  shows "fst (sweep_cell (example_env\<lparr>draws := d\<rparr>) j s pdbs lo hi reps w) = Some (Inr ())"
    and "length (sweep_calls (example_env\<lparr>draws := d\<rparr>) j s pdbs lo hi reps w) =
           length (sweep_pairs lo hi reps)"
proof -
  show "fst (sweep_cell (example_env\<lparr>draws := d\<rparr>) j s pdbs lo hi reps w) = Some (Inr ())"
    using example_service example_network example_choice [of d, OF assms]
    by (rule sweep_succeeds(1))
  show "length (sweep_calls (example_env\<lparr>draws := d\<rparr>) j s pdbs lo hi reps w) =
           length (sweep_pairs lo hi reps)"
    using example_service example_network example_choice [of d, OF assms]
    by (rule sweep_succeeds(2))
qed

lemma example_run_job:
  "fst (run_job example_env (MMSeqs2Runner j s) (Some pdbs) example_world) =
     Inr (''>101'', j @ ''_env/templates'')"
  by (simp add: run_job_def example_env_def Let_def job_MMSeqs2Runner)

lemma example_notebook_call_5:
  "5 < length (notebook_calls example_env example_world)"
  "req_max_extra_msa (notebook_calls example_env example_world ! 5) = 17"
  "req_max_msa_clusters (notebook_calls example_env example_world ! 5) = 8"
proof -
  have len: "length (notebook_calls example_env example_world) = length (sweep_pairs 16 34 5)"
    unfolding notebook_calls_sweep
    using example_sweep(2) [of "\<lambda>k i. i mod 4", unfolded example_env_draws] mod_4_window
    by blast
  have l: "length (sweep_pairs 16 34 5) = 90" by (simp add: length_sweep_pairs)
  have p: "sweep_pairs 16 34 5 ! 5 = (17, 0)" by code_simp
  show i: "5 < length (notebook_calls example_env example_world)"
    by (simp only: len l)
  note n = sweep_calls_nth [OF example_run_job i [unfolded notebook_calls_sweep]]
  show "req_max_extra_msa (notebook_calls example_env example_world ! 5) = 17"
    unfolding notebook_calls_sweep n(7) p by simp
  show "req_max_msa_clusters (notebook_calls example_env example_world ! 5) = 8"
    unfolding notebook_calls_sweep n(6) p by simp
qed

lemma ex_calls:
  "sweep_calls example_env ''T4_lysozyme'' ''MN IF'' [''6LB8_A''] 16 18 2 example_world =
     [\<lparr>req_seq = ''MNIF'', req_outname = ''0_16.pdb'', req_a3m_lines = ''>101'',
       req_template_path = ''T4_lysozyme_env/templates'', req_model_id = 1,
       req_max_msa_clusters = 8, req_max_extra_msa = 16, req_max_recycles = 1\<rparr>,
      \<lparr>req_seq = ''MNIF'', req_outname = ''1_16.pdb'', req_a3m_lines = ''>101'',
       req_template_path = ''T4_lysozyme_env/templates'', req_model_id = 2,
       req_max_msa_clusters = 8, req_max_extra_msa = 16, req_max_recycles = 1\<rparr>,
      \<lparr>req_seq = ''MNIF'', req_outname = ''0_17.pdb'', req_a3m_lines = ''>101'',
       req_template_path = ''T4_lysozyme_env/templates'', req_model_id = 1,
       req_max_msa_clusters = 8, req_max_extra_msa = 17, req_max_recycles = 1\<rparr>,
      \<lparr>req_seq = ''MNIF'', req_outname = ''1_17.pdb'', req_a3m_lines = ''>101'',
       req_template_path = ''T4_lysozyme_env/templates'', req_model_id = 2,
       req_max_msa_clusters = 8, req_max_extra_msa = 17, req_max_recycles = 1\<rparr>]"
  by code_simp

lemma ex_length:
  "length (sweep_calls example_env ''T4_lysozyme'' ''MN IF'' [''6LB8_A''] 16 18 2 example_world) = 4"
  by (simp add: ex_calls)

lemma ex_mem:
  "i < 4 \<Longrightarrow>
     sweep_calls example_env ''T4_lysozyme'' ''MN IF'' [''6LB8_A''] 16 18 2 example_world ! i
       \<in> set (sweep_calls example_env ''T4_lysozyme'' ''MN IF'' [''6LB8_A''] 16 18 2 example_world)"
  by (rule nth_mem) (simp only: ex_length)

lemma ex_result:
  "fst (sweep_cell example_env ''T4_lysozyme'' ''MN IF'' [''6LB8_A''] 16 18 2 example_world) =
     Some (Inr ())"
  using example_sweep(1) [of "\<lambda>k i. i mod 4", unfolded example_env_draws] mod_4_window by blast

lemma ex_fail_calls:
  "map req_outname (sweep_calls failing_env ''T4_lysozyme'' ''MN IF'' [''6LB8_A''] 16 18 2 example_world) =
     [''0_16.pdb'', ''1_16.pdb'']"
  by code_simp

lemma ex_zero_ids:
  "map req_model_id (sweep_calls (example_env\<lparr>draws := (\<lambda>k i. 0)\<rparr>) ''T4_lysozyme'' ''MN IF''
     [''6LB8_A''] 16 18 2 example_world) = [1, 1, 1, 1]"
  by code_simp

lemma failing_network:
  "network failing_env dirs r =
     (if req_outname r = ''1_16.pdb'' then Inl ModelInvocationError else Inr ''ATOM'')"
  by (simp add: failing_env_def)

text \<open>\<open>random.choice( ( 1, 2 ) )\<close>: what it can return, and how it treats the two variants.\<close>

lemma random_choice_1_2_cases:
  "fst (random_choice e [1, 2 :: int] w) = None \<or>
   fst (random_choice e [1, 2 :: int] w) = Some (Inr 1) \<or>
   fst (random_choice e [1, 2 :: int] w) = Some (Inr 2)"
  using randbelow_2_cases [of e "choice_fuel e" "draws_used w"]
  by (auto simp: random_choice_1_2 split: prod.split option.split)

lemma random_choice_one_draw:
  "fst (random_choice (e\<lparr>draws := (\<lambda>k i. r), choice_fuel := 1\<rparr>) [1, 2 :: int] w) =
     (if r = 0 then Some (Inr 1) else if r = 1 then Some (Inr 2) else None)"
proof -
  have "randbelow (e\<lparr>draws := (\<lambda>k i. r), choice_fuel := 1\<rparr>) 2 (Suc 0) (draws_used w) =
      (if 2 \<le> r then (None, Suc (draws_used w)) else (Some r, Suc (draws_used w)))"
    by (simp add: randbelow_def)
  moreover have "r = 0 \<or> r = 1 \<or> 2 \<le> r" by arith
  ultimately show ?thesis by (auto simp: random_choice_1_2)
qed

lemma random_choice_counts:
  "card {r. r < 4 \<and>
          fst (random_choice (e\<lparr>draws := (\<lambda>k i. r), choice_fuel := 1\<rparr>) [1, 2 :: int] w) =
            Some (Inr 1)} = 1"
  "card {r. r < 4 \<and>
          fst (random_choice (e\<lparr>draws := (\<lambda>k i. r), choice_fuel := 1\<rparr>) [1, 2 :: int] w) =
            Some (Inr 2)} = 1"
  "card {r. r < 4 \<and>
          fst (random_choice (e\<lparr>draws := (\<lambda>k i. r), choice_fuel := 1\<rparr>) [1, 2 :: int] w) =
            None} = 2"
proof -
  have "{r. r < 4 \<and>
          fst (random_choice (e\<lparr>draws := (\<lambda>k i. r), choice_fuel := 1\<rparr>) [1, 2 :: int] w) =
            Some (Inr 1)} = {0}"
    unfolding random_choice_one_draw by auto
  then show "card {r. r < 4 \<and>
          fst (random_choice (e\<lparr>draws := (\<lambda>k i. r), choice_fuel := 1\<rparr>) [1, 2 :: int] w) =
            Some (Inr 1)} = 1"
    by simp
  have "{r. r < 4 \<and>
          fst (random_choice (e\<lparr>draws := (\<lambda>k i. r), choice_fuel := 1\<rparr>) [1, 2 :: int] w) =
            Some (Inr 2)} = {1}"
    unfolding random_choice_one_draw by auto
  then show "card {r. r < 4 \<and>
          fst (random_choice (e\<lparr>draws := (\<lambda>k i. r), choice_fuel := 1\<rparr>) [1, 2 :: int] w) =
            Some (Inr 2)} = 1"
    by simp
  have "{r. r < 4 \<and>
          fst (random_choice (e\<lparr>draws := (\<lambda>k i. r), choice_fuel := 1\<rparr>) [1, 2 :: int] w) =
            None} = {2, 3}"
    unfolding random_choice_one_draw by auto
  moreover have "card {2, 3 :: nat} = 2" by simp
  ultimately show "card {r. r < 4 \<and>
          fst (random_choice (e\<lparr>draws := (\<lambda>k i. r), choice_fuel := 1\<rparr>) [1, 2 :: int] w) =
            None} = 2"
    by (simp only:)
qed

lemma randbelow_loop_exchange:
  "randbelow_loop (e\<lparr>draws := (\<lambda>k i. exchange (draws e k i))\<rparr>) k 2 fuel pos =
     (map_option exchange (fst (randbelow_loop e k 2 fuel pos)), snd (randbelow_loop e k 2 fuel pos))"
proof (induction fuel arbitrary: pos)
  case 0
  show ?case by simp
next
  case (Suc fuel)
  have "(2 \<le> exchange (draws e k pos)) = (2 \<le> draws e k pos)"
    by (simp add: exchange_def)
  with Suc.IH [of "Suc pos"] show ?case by simp
qed

lemma variant_exchange: "i < 2 \<Longrightarrow> [1, 2 :: int] ! exchange i = other_variant ([1, 2] ! i)"
proof -
  assume "i < 2"
  then have "i = 0 \<or> i = 1" by arith
  then show ?thesis by (auto simp: exchange_def other_variant_def)
qed

lemma random_choice_exchange:
  "fst (random_choice (e\<lparr>draws := (\<lambda>k i. exchange (draws e k i))\<rparr>) [1, 2 :: int] w) =
     map_option (map_sum id other_variant) (fst (random_choice e [1, 2 :: int] w))"
  "draws_used (snd (random_choice (e\<lparr>draws := (\<lambda>k i. exchange (draws e k i))\<rparr>) [1, 2 :: int] w)) =
     draws_used (snd (random_choice e [1, 2 :: int] w))"
proof -
  obtain a pos1 where r: "randbelow_loop e (bit_length 2) 2 (choice_fuel e) (draws_used w) = (a, pos1)"
    by (cases "randbelow_loop e (bit_length 2) 2 (choice_fuel e) (draws_used w)")
  then have r': "randbelow_loop (e\<lparr>draws := (\<lambda>k i. exchange (draws e k i))\<rparr>) (bit_length 2) 2
      (choice_fuel e) (draws_used w) = (map_option exchange a, pos1)"
    by (simp add: randbelow_loop_exchange)
  show "fst (random_choice (e\<lparr>draws := (\<lambda>k i. exchange (draws e k i))\<rparr>) [1, 2 :: int] w) =
     map_option (map_sum id other_variant) (fst (random_choice e [1, 2 :: int] w))"
  proof (cases a)
    case None
    with r r' show ?thesis by (simp add: random_choice_1_2 randbelow_def)
  next
    case (Some i)
    with r have "i < 2" by (simp add: randbelow_loop_below)
    then have "[1, 2 :: int] ! exchange i = other_variant ([1, 2] ! i)" by (rule variant_exchange)
    with Some r r' show ?thesis by (simp add: random_choice_1_2 randbelow_def)
  qed
  show "draws_used (snd (random_choice (e\<lparr>draws := (\<lambda>k i. exchange (draws e k i))\<rparr>) [1, 2 :: int] w)) =
     draws_used (snd (random_choice e [1, 2 :: int] w))"
    using r r' by (cases a) (simp_all add: random_choice_1_2 randbelow_def)
qed

section \<open>The claims\<close>

subsection \<open>C1: the sampling parameters of each prediction\<close>

text \<open>
  Claim C1, amended. The \<open>i\<close>-th prediction of a run belongs to the \<open>i\<close>-th pair of the
  nested loops. Its extra-alignment cap is the current depth value, its cluster cap is the
  depth value floor-divided by two (\<open>nseq // 2\<close>), which is exactly half the depth value when
  that is even, and its recycle count is the constant 1. This holds for every depth value of
  the range, odd ones included.
\<close>

theorem sweep_parameters:
  "\<forall>i < length (sweep_calls e j s pdbs lo hi reps w).
     i < length (sweep_pairs lo hi reps) \<and>
     req_max_extra_msa (sweep_calls e j s pdbs lo hi reps w ! i) = fst (sweep_pairs lo hi reps ! i) \<and>
     req_max_msa_clusters (sweep_calls e j s pdbs lo hi reps w ! i) =
       fst (sweep_pairs lo hi reps ! i) div 2 \<and>
     (even (fst (sweep_pairs lo hi reps ! i)) \<longrightarrow>
        2 * req_max_msa_clusters (sweep_calls e j s pdbs lo hi reps w ! i) =
          fst (sweep_pairs lo hi reps ! i)) \<and>
     req_max_recycles (sweep_calls e j s pdbs lo hi reps w ! i) = 1"
proof (intro allI impI)
  fix i
  assume i: "i < length (sweep_calls e j s pdbs lo hi reps w)"
  then obtain a3m tp where ok: "fst (run_job e (MMSeqs2Runner j s) (Some pdbs) w) = Inr (a3m, tp)"
    using sweep_calls_nonempty_ok by blast
  note n = sweep_calls_nth [OF ok i]
  from n(1) n(6) n(7) n(8) show "i < length (sweep_pairs lo hi reps) \<and>
     req_max_extra_msa (sweep_calls e j s pdbs lo hi reps w ! i) = fst (sweep_pairs lo hi reps ! i) \<and>
     req_max_msa_clusters (sweep_calls e j s pdbs lo hi reps w ! i) =
       fst (sweep_pairs lo hi reps ! i) div 2 \<and>
     (even (fst (sweep_pairs lo hi reps ! i)) \<longrightarrow>
        2 * req_max_msa_clusters (sweep_calls e j s pdbs lo hi reps w ! i) =
          fst (sweep_pairs lo hi reps ! i)) \<and>
     req_max_recycles (sweep_calls e j s pdbs lo hi reps w ! i) = 1"
    by simp
qed

text \<open>
  C1 at the first prediction of the sweep over the depths 16 and 17 with two repetitions: the
  depth 16 is even, and the cluster cap 8 is half of it.
\<close>

theorem sweep_parameters_witness:
  "0 < length (sweep_calls example_env ''T4_lysozyme'' ''MN IF'' [''6LB8_A''] 16 18 2 example_world) \<and>
   even (fst (sweep_pairs 16 18 2 ! 0)) \<and>
   req_max_extra_msa
     (sweep_calls example_env ''T4_lysozyme'' ''MN IF'' [''6LB8_A''] 16 18 2 example_world ! 0) =
     fst (sweep_pairs 16 18 2 ! 0) \<and>
   2 * req_max_msa_clusters
     (sweep_calls example_env ''T4_lysozyme'' ''MN IF'' [''6LB8_A''] 16 18 2 example_world ! 0) =
     fst (sweep_pairs 16 18 2 ! 0) \<and>
   req_max_recycles
     (sweep_calls example_env ''T4_lysozyme'' ''MN IF'' [''6LB8_A''] 16 18 2 example_world ! 0) = 1"
proof -
  have l: "0 < length (sweep_calls example_env ''T4_lysozyme'' ''MN IF'' [''6LB8_A''] 16 18 2 example_world)"
    by (simp add: ex_length)
  have ev: "even (fst (sweep_pairs 16 18 2 ! 0))" by code_simp
  from sweep_parameters [rule_format, OF l] l ev show ?thesis by blast
qed

text \<open>
  C1 as it is worded, with the cluster cap equal to half the depth value (\<open>depth/2\<close>) for odd
  depth values too, fails in the notebook as written: the sixth prediction has the depth 17
  and the cluster cap \<open>17 // 2 = 8\<close>, which is not \<open>17/2\<close>.
\<close>

theorem half_depth_counterexample:
  "5 < length (notebook_calls example_env example_world) \<and>
   req_max_extra_msa (notebook_calls example_env example_world ! 5) = 17 \<and>
   real_of_int (req_max_msa_clusters (notebook_calls example_env example_world ! 5)) \<noteq>
     real_of_int (req_max_extra_msa (notebook_calls example_env example_world ! 5)) / 2"
  by (simp add: example_notebook_call_5)

subsection \<open>C2: the number and the order of the predictions\<close>

text \<open>
  Claim C2. A run that completes over a depth range of \<open>N\<close> distinct values with \<open>R\<close>
  repetitions per depth invokes exactly \<open>N \<times> R\<close> predictions, one per pair of depth and
  repetition, in the order of the nested loops: all repetitions of the first depth, then all
  of the next. Here \<open>N = hi - lo\<close> and \<open>R = reps\<close>, or 0 when that is negative.
\<close>

theorem sweep_invocations:
  "fst (sweep_cell e j s pdbs lo hi reps w) = Some (Inr ()) \<Longrightarrow>
     length (sweep_calls e j s pdbs lo hi reps w) = length (py_range lo hi) * length (py_range 0 reps) \<and>
     length (py_range lo hi) = nat (hi - lo) \<and> distinct (py_range lo hi) \<and>
     length (py_range 0 reps) = nat reps \<and>
     map (\<lambda>r. (req_max_extra_msa r, req_outname r)) (sweep_calls e j s pdbs lo hi reps w) =
       [(nseq, outname n_model nseq). nseq \<leftarrow> py_range lo hi, n_model \<leftarrow> py_range 0 reps]"
proof -
  assume "fst (sweep_cell e j s pdbs lo hi reps w) = Some (Inr ())"
  then have len: "length (sweep_calls e j s pdbs lo hi reps w) = length (sweep_pairs lo hi reps)"
    by (rule sweep_calls_complete(2))
  then have "length (sweep_calls e j s pdbs lo hi reps w) = length (py_range lo hi) * length (py_range 0 reps)"
    by (simp add: length_sweep_pairs length_py_range)
  moreover have "map (\<lambda>r. (req_max_extra_msa r, req_outname r)) (sweep_calls e j s pdbs lo hi reps w) =
       [(nseq, outname n_model nseq). nseq \<leftarrow> py_range lo hi, n_model \<leftarrow> py_range 0 reps]"
    unfolding sweep_calls_keys len by (simp only: take_all order_refl sweep_pairs_keys)
  ultimately show ?thesis
    by (simp add: length_py_range distinct_py_range)
qed

text \<open>
  C2 at the sweep over the depths 16 and 17 with two repetitions, which completes with
  \<open>2 \<times> 2\<close> predictions.
\<close>

theorem sweep_invocations_witness:
  "fst (sweep_cell example_env ''T4_lysozyme'' ''MN IF'' [''6LB8_A''] 16 18 2 example_world) =
     Some (Inr ()) \<and>
   length (sweep_calls example_env ''T4_lysozyme'' ''MN IF'' [''6LB8_A''] 16 18 2 example_world) = 2 * 2 \<and>
   map (\<lambda>r. (req_max_extra_msa r, req_outname r))
     (sweep_calls example_env ''T4_lysozyme'' ''MN IF'' [''6LB8_A''] 16 18 2 example_world) =
     [(16, ''0_16.pdb''), (16, ''1_16.pdb''), (17, ''0_17.pdb''), (17, ''1_17.pdb'')]"
proof -
  note t = sweep_invocations [OF ex_result]
  have "[(nseq, outname n_model nseq). nseq \<leftarrow> py_range 16 18, n_model \<leftarrow> py_range 0 2] =
     [(16, ''0_16.pdb''), (16, ''1_16.pdb''), (17, ''0_17.pdb''), (17, ''1_17.pdb'')]"
    by code_simp
  moreover have "length (py_range 16 18) * length (py_range 0 2) = 2 * 2"
    by code_simp
  ultimately show ?thesis using t ex_result by (simp only:)
qed

subsection \<open>C3: the template policy of the alignment client\<close>

text \<open>
  Claim C3. When the service answers, \<open>run_job\<close> returns the alignment bundle. With no
  template list or an empty one the bundle references every template the service reports,
  unfiltered. With a non-empty list it references exactly the reported templates that are in
  the list, so only templates of the list, and none at all when no reported template is in
  the list.
\<close>

theorem run_job_template_policy:
  "service e (seq rn) = Inr (a3m, reported) \<Longrightarrow>
     fst (run_job e rn templates w) = Inr (a3m, template_dir e (job rn)) \<and>
     (templates = None \<or> templates = Some [] \<longrightarrow>
        bundle_templates (snd (run_job e rn templates w)) (template_dir e (job rn)) = reported) \<and>
     (\<forall>ts. templates = Some ts \<and> ts \<noteq> [] \<longrightarrow>
        bundle_templates (snd (run_job e rn templates w)) (template_dir e (job rn)) =
          filter (\<lambda>t. t \<in> set ts) reported \<and>
        set (bundle_templates (snd (run_job e rn templates w)) (template_dir e (job rn)))
          \<subseteq> set ts \<inter> set reported \<and>
        (set reported \<inter> set ts = {} \<longrightarrow>
           bundle_templates (snd (run_job e rn templates w)) (template_dir e (job rn)) = []))"
proof -
  assume s: "service e (seq rn) = Inr (a3m, reported)"
  then have b: "bundle_templates (snd (run_job e rn templates w)) (template_dir e (job rn)) =
      select_templates templates reported"
    by (simp add: run_job_def bundle_templates_def Let_def)
  from s have "fst (run_job e rn templates w) = Inr (a3m, template_dir e (job rn))"
    by (simp add: run_job_def Let_def)
  moreover have "templates = None \<or> templates = Some [] \<longrightarrow> select_templates templates reported = reported"
    by (auto simp: select_templates_def)
  moreover have "\<forall>ts. templates = Some ts \<and> ts \<noteq> [] \<longrightarrow>
        select_templates templates reported = filter (\<lambda>t. t \<in> set ts) reported \<and>
        set (select_templates templates reported) \<subseteq> set ts \<inter> set reported \<and>
        (set reported \<inter> set ts = {} \<longrightarrow> select_templates templates reported = [])"
    by (auto simp: select_templates_def filter_empty_conv)
  ultimately show ?thesis unfolding b by blast
qed

text \<open>
  C3 for a service that reports three templates: an empty list keeps all three, a list of two
  of which one is reported keeps that one, and a list with no reported template gives an
  empty bundle.
\<close>

theorem run_job_template_policy_witness:
  "service example_env (seq (MMSeqs2Runner ''T4_lysozyme'' ''MN IF'')) =
     Inr (''>101'', [''6LB8_A'', ''2LZM_A'', ''4PK0_A'']) \<and>
   bundle_templates
     (snd (run_job example_env (MMSeqs2Runner ''T4_lysozyme'' ''MN IF'') (Some []) example_world))
     ''T4_lysozyme_env/templates'' = [''6LB8_A'', ''2LZM_A'', ''4PK0_A''] \<and>
   bundle_templates
     (snd (run_job example_env (MMSeqs2Runner ''T4_lysozyme'' ''MN IF'')
        (Some [''4PK0_A'', ''6FW2_A'']) example_world))
     ''T4_lysozyme_env/templates'' = [''4PK0_A''] \<and>
   set [''6LB8_A'', ''2LZM_A'', ''4PK0_A''] \<inter> set [''6FW2_A''] = {} \<and>
   bundle_templates
     (snd (run_job example_env (MMSeqs2Runner ''T4_lysozyme'' ''MN IF'') (Some [''6FW2_A'']) example_world))
     ''T4_lysozyme_env/templates'' = []"
proof -
  have s: "service example_env (seq (MMSeqs2Runner ''T4_lysozyme'' ''MN IF'')) =
     Inr (''>101'', [''6LB8_A'', ''2LZM_A'', ''4PK0_A''])"
    by (simp add: example_env_def)
  have p: "template_dir example_env (job (MMSeqs2Runner ''T4_lysozyme'' ''MN IF'')) =
     ''T4_lysozyme_env/templates''"
    by (simp add: example_env_def job_MMSeqs2Runner)
  have d: "set [''6LB8_A'', ''2LZM_A'', ''4PK0_A''] \<inter> set [''6FW2_A''] = {}" by simp
  from run_job_template_policy [OF s, of "Some []" example_world]
  have a: "bundle_templates
     (snd (run_job example_env (MMSeqs2Runner ''T4_lysozyme'' ''MN IF'') (Some []) example_world))
     ''T4_lysozyme_env/templates'' = [''6LB8_A'', ''2LZM_A'', ''4PK0_A'']"
    unfolding p by simp
  from run_job_template_policy [OF s, of "Some [''4PK0_A'', ''6FW2_A'']" example_world]
  have b: "bundle_templates
     (snd (run_job example_env (MMSeqs2Runner ''T4_lysozyme'' ''MN IF'')
        (Some [''4PK0_A'', ''6FW2_A'']) example_world))
     ''T4_lysozyme_env/templates'' = [''4PK0_A'']"
    unfolding p by simp
  from run_job_template_policy [OF s, of "Some [''6FW2_A'']" example_world]
  have c: "bundle_templates
     (snd (run_job example_env (MMSeqs2Runner ''T4_lysozyme'' ''MN IF'') (Some [''6FW2_A'']) example_world))
     ''T4_lysozyme_env/templates'' = []"
    unfolding p by simp
  from s a b c d show ?thesis by (simp only:)
qed

subsection \<open>C4: the network variant\<close>

text \<open>
  Claim C4. Every prediction of a run gets the variant 1 or the variant 2 and no other value,
  whatever the generator returns. A call \<open>random.choice( ( 1, 2 ) )\<close> never raises, and one
  that returns gives 1 or 2. The choice is uniform between the two in this sense:
  \<open>_randbelow( 2 )\<close> asks the generator for two bits at a time; of the four values of two bits
  one selects variant 1, one selects variant 2, and two are rejected and followed by another
  draw; and exchanging the values 0 and 1 in the generator's output exchanges the variants
  chosen and changes nothing else, so that a generator whose output is as likely as the
  exchanged output chooses each variant as often as the other.
\<close>

theorem sweep_model_id:
  "(\<forall>i < length (sweep_calls e j s pdbs lo hi reps w).
      req_model_id (sweep_calls e j s pdbs lo hi reps w ! i) = 1 \<or>
      req_model_id (sweep_calls e j s pdbs lo hi reps w ! i) = 2) \<and>
   (fst (random_choice e [1, 2 :: int] w) = None \<or>
    fst (random_choice e [1, 2 :: int] w) = Some (Inr 1) \<or>
    fst (random_choice e [1, 2 :: int] w) = Some (Inr 2)) \<and>
   card {r. r < 4 \<and>
           fst (random_choice (e\<lparr>draws := (\<lambda>k i. r), choice_fuel := 1\<rparr>) [1, 2 :: int] w) =
             Some (Inr 1)} = 1 \<and>
   card {r. r < 4 \<and>
           fst (random_choice (e\<lparr>draws := (\<lambda>k i. r), choice_fuel := 1\<rparr>) [1, 2 :: int] w) =
             Some (Inr 2)} = 1 \<and>
   card {r. r < 4 \<and>
           fst (random_choice (e\<lparr>draws := (\<lambda>k i. r), choice_fuel := 1\<rparr>) [1, 2 :: int] w) =
             None} = 2 \<and>
   fst (random_choice (e\<lparr>draws := (\<lambda>k i. exchange (draws e k i))\<rparr>) [1, 2 :: int] w) =
     map_option (map_sum id other_variant) (fst (random_choice e [1, 2 :: int] w)) \<and>
   draws_used (snd (random_choice (e\<lparr>draws := (\<lambda>k i. exchange (draws e k i))\<rparr>) [1, 2 :: int] w)) =
     draws_used (snd (random_choice e [1, 2 :: int] w))"
proof (intro conjI allI impI)
  fix i
  assume i: "i < length (sweep_calls e j s pdbs lo hi reps w)"
  then obtain a3m tp where ok: "fst (run_job e (MMSeqs2Runner j s) (Some pdbs) w) = Inr (a3m, tp)"
    using sweep_calls_nonempty_ok by blast
  from ok i show "req_model_id (sweep_calls e j s pdbs lo hi reps w ! i) = 1 \<or>
      req_model_id (sweep_calls e j s pdbs lo hi reps w ! i) = 2"
    by (rule sweep_calls_nth(9))
next
  show "fst (random_choice e [1, 2 :: int] w) = None \<or>
    fst (random_choice e [1, 2 :: int] w) = Some (Inr 1) \<or>
    fst (random_choice e [1, 2 :: int] w) = Some (Inr 2)"
    by (rule random_choice_1_2_cases)
next
  show "card {r. r < 4 \<and>
           fst (random_choice (e\<lparr>draws := (\<lambda>k i. r), choice_fuel := 1\<rparr>) [1, 2 :: int] w) =
             Some (Inr 1)} = 1"
    by (rule random_choice_counts(1))
next
  show "card {r. r < 4 \<and>
           fst (random_choice (e\<lparr>draws := (\<lambda>k i. r), choice_fuel := 1\<rparr>) [1, 2 :: int] w) =
             Some (Inr 2)} = 1"
    by (rule random_choice_counts(2))
next
  show "card {r. r < 4 \<and>
           fst (random_choice (e\<lparr>draws := (\<lambda>k i. r), choice_fuel := 1\<rparr>) [1, 2 :: int] w) =
             None} = 2"
    by (rule random_choice_counts(3))
next
  show "fst (random_choice (e\<lparr>draws := (\<lambda>k i. exchange (draws e k i))\<rparr>) [1, 2 :: int] w) =
     map_option (map_sum id other_variant) (fst (random_choice e [1, 2 :: int] w))"
    by (rule random_choice_exchange(1))
next
  show "draws_used (snd (random_choice (e\<lparr>draws := (\<lambda>k i. exchange (draws e k i))\<rparr>) [1, 2 :: int] w)) =
     draws_used (snd (random_choice e [1, 2 :: int] w))"
    by (rule random_choice_exchange(2))
qed

text \<open>
  C4 at the first two predictions of a run whose generator returns 0, 1, 2, 3, 0, 1, ...: the
  first gets variant 1 and the second variant 2.
\<close>

theorem sweep_model_id_witness:
  "1 < length (sweep_calls example_env ''T4_lysozyme'' ''MN IF'' [''6LB8_A''] 16 18 2 example_world) \<and>
   (req_model_id
      (sweep_calls example_env ''T4_lysozyme'' ''MN IF'' [''6LB8_A''] 16 18 2 example_world ! 0) = 1 \<or>
    req_model_id
      (sweep_calls example_env ''T4_lysozyme'' ''MN IF'' [''6LB8_A''] 16 18 2 example_world ! 0) = 2) \<and>
   req_model_id
     (sweep_calls example_env ''T4_lysozyme'' ''MN IF'' [''6LB8_A''] 16 18 2 example_world ! 0) = 1 \<and>
   (req_model_id
      (sweep_calls example_env ''T4_lysozyme'' ''MN IF'' [''6LB8_A''] 16 18 2 example_world ! 1) = 1 \<or>
    req_model_id
      (sweep_calls example_env ''T4_lysozyme'' ''MN IF'' [''6LB8_A''] 16 18 2 example_world ! 1) = 2) \<and>
   req_model_id
     (sweep_calls example_env ''T4_lysozyme'' ''MN IF'' [''6LB8_A''] 16 18 2 example_world ! 1) = 2"
proof -
  have l0: "0 < length (sweep_calls example_env ''T4_lysozyme'' ''MN IF'' [''6LB8_A''] 16 18 2 example_world)"
    and l1: "1 < length (sweep_calls example_env ''T4_lysozyme'' ''MN IF'' [''6LB8_A''] 16 18 2 example_world)"
    by (simp_all add: ex_length)
  have m0: "req_model_id
     (sweep_calls example_env ''T4_lysozyme'' ''MN IF'' [''6LB8_A''] 16 18 2 example_world ! 0) = 1"
    and m1: "req_model_id
     (sweep_calls example_env ''T4_lysozyme'' ''MN IF'' [''6LB8_A''] 16 18 2 example_world ! 1) = 2"
    by (simp_all add: ex_calls)
  note t = sweep_model_id [of example_env "''T4_lysozyme''" "''MN IF''" "[''6LB8_A'']" 16 18 2
      example_world, THEN conjunct1, rule_format]
  from l1 t [OF l0] m0 t [OF l1] m1 show ?thesis by (intro conjI)
qed

subsection \<open>C5: the output files\<close>

text \<open>
  Claim C5. The output names of the predictions of one run are pairwise distinct, because
  the name determines the repetition index and the depth value. A prediction for which the
  network answers returns and changes the files at its output name only: the file there is
  the new coordinate text, whatever was there before, so an existing file is overwritten and
  not appended to. After a complete run the files are those that were there before and one
  per prediction.
\<close>

theorem output_files:
  "distinct (map req_outname (sweep_calls e j s pdbs lo hi reps w)) \<and>
   (outname n_model nseq = outname n_model' nseq' \<longrightarrow> n_model = n_model' \<and> nseq = nseq') \<and>
   (network e (template_dirs w0) r = Inr pdb \<longrightarrow>
      fst (predict_structure_from_templates e r w0) = Inr () \<and>
      files (snd (predict_structure_from_templates e r w0)) = (files w0)(req_outname r \<mapsto> pdb)) \<and>
   (fst (sweep_cell e j s pdbs lo hi reps w) = Some (Inr ()) \<longrightarrow>
      dom (files (snd (sweep_cell e j s pdbs lo hi reps w))) =
        dom (files w) \<union> set (map req_outname (sweep_calls e j s pdbs lo hi reps w)))"
proof (intro conjI impI)
  show "distinct (map req_outname (sweep_calls e j s pdbs lo hi reps w))"
    by (rule sweep_calls_distinct)
next
  assume "outname n_model nseq = outname n_model' nseq'"
  then have "n_model = n_model' \<and> nseq = nseq'" by (rule outname_inj)
  then show "n_model = n_model'" and "nseq = nseq'" by simp_all
next
  assume "network e (template_dirs w0) r = Inr pdb"
  then show "fst (predict_structure_from_templates e r w0) = Inr ()"
    and "files (snd (predict_structure_from_templates e r w0)) = (files w0)(req_outname r \<mapsto> pdb)"
    by (simp_all add: predict_fst predict_files)
next
  assume "fst (sweep_cell e j s pdbs lo hi reps w) = Some (Inr ())"
  then show "dom (files (snd (sweep_cell e j s pdbs lo hi reps w))) =
        dom (files w) \<union> set (map req_outname (sweep_calls e j s pdbs lo hi reps w))"
    by (rule sweep_complete_files)
qed

text \<open>
  C5 for a prediction with the output name \<open>0_16.pdb\<close> in a world where that file already
  exists: afterwards the file holds the new text only. The complete sweep over the depths 16
  and 17 with two repetitions, started with no files, leaves exactly its four files.
\<close>

theorem output_files_witness:
  "outname 0 16 = outname 0 16 \<and>
   network example_env (template_dirs (example_world\<lparr>files := [''0_16.pdb'' \<mapsto> ''OLD'']\<rparr>))
     (sweep_request (MMSeqs2Runner ''T4_lysozyme'' ''MN IF'') ''>101'' ''T4_lysozyme_env/templates'' 16 0 1)
     = Inr ''ATOM'' \<and>
   files (example_world\<lparr>files := [''0_16.pdb'' \<mapsto> ''OLD'']\<rparr>) ''0_16.pdb'' = Some ''OLD'' \<and>
   files (snd (predict_structure_from_templates example_env
       (sweep_request (MMSeqs2Runner ''T4_lysozyme'' ''MN IF'') ''>101'' ''T4_lysozyme_env/templates'' 16 0 1)
       (example_world\<lparr>files := [''0_16.pdb'' \<mapsto> ''OLD'']\<rparr>))) = [''0_16.pdb'' \<mapsto> ''ATOM''] \<and>
   fst (sweep_cell example_env ''T4_lysozyme'' ''MN IF'' [''6LB8_A''] 16 18 2 example_world) =
     Some (Inr ()) \<and>
   dom (files (snd (sweep_cell example_env ''T4_lysozyme'' ''MN IF'' [''6LB8_A''] 16 18 2 example_world))) =
     {''0_16.pdb'', ''1_16.pdb'', ''0_17.pdb'', ''1_17.pdb''}"
proof -
  let ?r = "sweep_request (MMSeqs2Runner ''T4_lysozyme'' ''MN IF'') ''>101'' ''T4_lysozyme_env/templates'' 16 0 1"
  let ?w0 = "example_world\<lparr>files := [''0_16.pdb'' \<mapsto> ''OLD'']\<rparr>"
  have n: "network example_env (template_dirs ?w0) ?r = Inr ''ATOM''"
    by (simp add: example_env_def)
  have o: "req_outname ?r = ''0_16.pdb''" by code_simp
  have f0: "files ?w0 ''0_16.pdb'' = Some ''OLD''" by simp
  have f0': "files ?w0 = [''0_16.pdb'' \<mapsto> ''OLD'']" by simp
  have d0: "dom (files example_world) = {}" by (simp add: example_world_def)
  have names: "set (map req_outname
      (sweep_calls example_env ''T4_lysozyme'' ''MN IF'' [''6LB8_A''] 16 18 2 example_world)) =
     {''0_16.pdb'', ''1_16.pdb'', ''0_17.pdb'', ''1_17.pdb''}"
    by (simp add: ex_calls)
  note t = output_files [of example_env "''T4_lysozyme''" "''MN IF''" "[''6LB8_A'']" 16 18 2
      example_world 0 16 0 16 ?w0 ?r "''ATOM''"]
  from t n have "files (snd (predict_structure_from_templates example_env ?r ?w0)) =
      (files ?w0)(req_outname ?r \<mapsto> ''ATOM'')"
    by blast
  then have a: "files (snd (predict_structure_from_templates example_env ?r ?w0)) =
      [''0_16.pdb'' \<mapsto> ''ATOM'']"
    unfolding o f0' by simp
  from t ex_result
  have "dom (files (snd (sweep_cell example_env ''T4_lysozyme'' ''MN IF'' [''6LB8_A''] 16 18 2 example_world))) =
     dom (files example_world) \<union> set (map req_outname
      (sweep_calls example_env ''T4_lysozyme'' ''MN IF'' [''6LB8_A''] 16 18 2 example_world))"
    by blast
  then have b: "dom (files (snd (sweep_cell example_env ''T4_lysozyme'' ''MN IF'' [''6LB8_A''] 16 18 2 example_world))) =
     {''0_16.pdb'', ''1_16.pdb'', ''0_17.pdb'', ''1_17.pdb''}"
    unfolding names d0 by simp
  from n f0 a ex_result b show ?thesis by (simp only:)
qed

subsection \<open>C6: one alignment fetch, reused by every prediction\<close>

text \<open>
  Claim C6. A run calls \<open>run_job\<close> exactly once, before the loops. Every prediction of the
  run is passed the alignment text and the template path that this call returned, and the
  template directories are after the run as that call left them.
\<close>

theorem alignment_fetched_once:
  "fetches (snd (sweep_cell e j s pdbs lo hi reps w)) = Suc (fetches w) \<and>
   (fst (run_job e (MMSeqs2Runner j s) (Some pdbs) w) = Inr (a3m, tp) \<longrightarrow>
      (\<forall>r \<in> set (sweep_calls e j s pdbs lo hi reps w).
         req_a3m_lines r = a3m \<and> req_template_path r = tp) \<and>
      template_dirs (snd (sweep_cell e j s pdbs lo hi reps w)) =
        template_dirs (snd (run_job e (MMSeqs2Runner j s) (Some pdbs) w)))"
proof (intro conjI impI ballI)
  show "fetches (snd (sweep_cell e j s pdbs lo hi reps w)) = Suc (fetches w)"
    by (rule sweep_fetches)
next
  fix r
  assume ok: "fst (run_job e (MMSeqs2Runner j s) (Some pdbs) w) = Inr (a3m, tp)"
    and r: "r \<in> set (sweep_calls e j s pdbs lo hi reps w)"
  from ok r show "req_a3m_lines r = a3m" by (rule sweep_calls_bundle(1))
  from ok r show "req_template_path r = tp" by (rule sweep_calls_bundle(2))
next
  assume "fst (run_job e (MMSeqs2Runner j s) (Some pdbs) w) = Inr (a3m, tp)"
  then show "template_dirs (snd (sweep_cell e j s pdbs lo hi reps w)) =
        template_dirs (snd (run_job e (MMSeqs2Runner j s) (Some pdbs) w))"
    by (rule sweep_ok(3))
qed

text \<open>
  C6 at the last prediction of the sweep over the depths 16 and 17 with two repetitions.
\<close>

theorem alignment_fetched_once_witness:
  "fst (run_job example_env (MMSeqs2Runner ''T4_lysozyme'' ''MN IF'') (Some [''6LB8_A'']) example_world) =
     Inr (''>101'', ''T4_lysozyme_env/templates'') \<and>
   sweep_calls example_env ''T4_lysozyme'' ''MN IF'' [''6LB8_A''] 16 18 2 example_world ! 3
     \<in> set (sweep_calls example_env ''T4_lysozyme'' ''MN IF'' [''6LB8_A''] 16 18 2 example_world) \<and>
   req_a3m_lines
     (sweep_calls example_env ''T4_lysozyme'' ''MN IF'' [''6LB8_A''] 16 18 2 example_world ! 3) = ''>101'' \<and>
   req_template_path
     (sweep_calls example_env ''T4_lysozyme'' ''MN IF'' [''6LB8_A''] 16 18 2 example_world ! 3) =
     ''T4_lysozyme_env/templates'' \<and>
   fetches (snd (sweep_cell example_env ''T4_lysozyme'' ''MN IF'' [''6LB8_A''] 16 18 2 example_world)) =
     Suc (fetches example_world)"
proof -
  have ok: "fst (run_job example_env (MMSeqs2Runner ''T4_lysozyme'' ''MN IF'') (Some [''6LB8_A''])
      example_world) = Inr (''>101'', ''T4_lysozyme_env/templates'')"
    using example_run_job [of "''T4_lysozyme''" "''MN IF''" "[''6LB8_A'']"] by simp
  have m: "sweep_calls example_env ''T4_lysozyme'' ''MN IF'' [''6LB8_A''] 16 18 2 example_world ! 3
     \<in> set (sweep_calls example_env ''T4_lysozyme'' ''MN IF'' [''6LB8_A''] 16 18 2 example_world)"
    by (rule ex_mem) simp
  note t = alignment_fetched_once [of example_env "''T4_lysozyme''" "''MN IF''" "[''6LB8_A'']" 16 18 2
      example_world "''>101''" "''T4_lysozyme_env/templates''"]
  from t ok m show ?thesis by blast
qed

subsection \<open>C7: errors propagate and stop the run\<close>

text \<open>
  Claim C7. If the alignment fetch raises an error, the run ends with that error and invokes
  no prediction. If a prediction of the run raises an error, the run ends with that error
  and that prediction is the last one invoked: no later iteration is executed. No prediction
  is invoked a second time: the output names of the predictions invoked are pairwise
  distinct.
\<close>

theorem errors_propagate:
  "(fst (run_job e (MMSeqs2Runner j s) (Some pdbs) w) = Inl err \<longrightarrow>
      fst (sweep_cell e j s pdbs lo hi reps w) = Some (Inl err) \<and>
      sweep_calls e j s pdbs lo hi reps w = []) \<and>
   (\<forall>i < length (sweep_calls e j s pdbs lo hi reps w).
      network e (template_dirs (snd (sweep_cell e j s pdbs lo hi reps w)))
        (sweep_calls e j s pdbs lo hi reps w ! i) = Inl err \<longrightarrow>
      fst (sweep_cell e j s pdbs lo hi reps w) = Some (Inl err) \<and>
      Suc i = length (sweep_calls e j s pdbs lo hi reps w)) \<and>
   distinct (map req_outname (sweep_calls e j s pdbs lo hi reps w))"
proof (intro conjI impI allI)
  assume f: "fst (run_job e (MMSeqs2Runner j s) (Some pdbs) w) = Inl err"
  from f show "fst (sweep_cell e j s pdbs lo hi reps w) = Some (Inl err)" by (rule sweep_fail(1))
  from f show "sweep_calls e j s pdbs lo hi reps w = []" by (rule sweep_fail(2))
next
  fix i
  assume i: "i < length (sweep_calls e j s pdbs lo hi reps w)"
    and n: "network e (template_dirs (snd (sweep_cell e j s pdbs lo hi reps w)))
        (sweep_calls e j s pdbs lo hi reps w ! i) = Inl err"
  from i obtain a3m tp where ok: "fst (run_job e (MMSeqs2Runner j s) (Some pdbs) w) = Inr (a3m, tp)"
    using sweep_calls_nonempty_ok by blast
  let ?net = "network e (template_dirs (snd (run_job e (MMSeqs2Runner j s) (Some pdbs) w)))"
  let ?tr = "trace e (MMSeqs2Runner j s) a3m tp ?net (draws_used w) (sweep_pairs lo hi reps)"
  have res: "fst (sweep_cell e j s pdbs lo hi reps w) = fst ?tr"
    using ok by (rule sweep_ok(1))
  have cs: "sweep_calls e j s pdbs lo hi reps w = snd ?tr"
    using ok by (rule sweep_ok(2))
  have td: "template_dirs (snd (sweep_cell e j s pdbs lo hi reps w)) =
        template_dirs (snd (run_job e (MMSeqs2Runner j s) (Some pdbs) w))"
    using ok by (rule sweep_ok(3))
  from i have i': "i < length (snd ?tr)" unfolding cs .
  from n have n': "?net (snd ?tr ! i) = Inl err" unfolding cs td .
  from i' n' have "fst ?tr = Some (Inl err) \<and> Suc i = length (snd ?tr)"
    by (rule trace_failure_is_last)
  then show "fst (sweep_cell e j s pdbs lo hi reps w) = Some (Inl err)"
    and "Suc i = length (sweep_calls e j s pdbs lo hi reps w)"
    unfolding res cs by simp_all
next
  show "distinct (map req_outname (sweep_calls e j s pdbs lo hi reps w))"
    by (rule sweep_calls_distinct)
qed

text \<open>
  C7 for an unreachable service, where the run ends with the network failure before any
  prediction, and for a network that fails on the second repetition of depth 16, where the
  run ends with the model error after two predictions.
\<close>

theorem errors_propagate_witness:
  "fst (run_job offline_env (MMSeqs2Runner ''T4_lysozyme'' ''MN IF'') (Some [''6LB8_A'']) example_world) =
     Inl NetworkFailure \<and>
   fst (sweep_cell offline_env ''T4_lysozyme'' ''MN IF'' [''6LB8_A''] 16 18 2 example_world) =
     Some (Inl NetworkFailure) \<and>
   sweep_calls offline_env ''T4_lysozyme'' ''MN IF'' [''6LB8_A''] 16 18 2 example_world = [] \<and>
   1 < length (sweep_calls failing_env ''T4_lysozyme'' ''MN IF'' [''6LB8_A''] 16 18 2 example_world) \<and>
   network failing_env
     (template_dirs (snd (sweep_cell failing_env ''T4_lysozyme'' ''MN IF'' [''6LB8_A''] 16 18 2 example_world)))
     (sweep_calls failing_env ''T4_lysozyme'' ''MN IF'' [''6LB8_A''] 16 18 2 example_world ! 1) =
     Inl ModelInvocationError \<and>
   fst (sweep_cell failing_env ''T4_lysozyme'' ''MN IF'' [''6LB8_A''] 16 18 2 example_world) =
     Some (Inl ModelInvocationError) \<and>
   Suc 1 = length (sweep_calls failing_env ''T4_lysozyme'' ''MN IF'' [''6LB8_A''] 16 18 2 example_world)"
proof -
  have off: "fst (run_job offline_env (MMSeqs2Runner ''T4_lysozyme'' ''MN IF'') (Some [''6LB8_A''])
      example_world) = Inl NetworkFailure"
    by (simp add: run_job_def offline_env_def Let_def)
  have len: "length (map req_outname
      (sweep_calls failing_env ''T4_lysozyme'' ''MN IF'' [''6LB8_A''] 16 18 2 example_world)) = 2"
    by (simp only: ex_fail_calls) simp
  then have l: "1 < length (sweep_calls failing_env ''T4_lysozyme'' ''MN IF'' [''6LB8_A''] 16 18 2 example_world)"
    by simp
  have "map req_outname
      (sweep_calls failing_env ''T4_lysozyme'' ''MN IF'' [''6LB8_A''] 16 18 2 example_world) ! 1 =
      ''1_16.pdb''"
    by (simp only: ex_fail_calls) simp
  with l have o: "req_outname
      (sweep_calls failing_env ''T4_lysozyme'' ''MN IF'' [''6LB8_A''] 16 18 2 example_world ! 1) =
      ''1_16.pdb''"
    by simp
  have n: "network failing_env
     (template_dirs (snd (sweep_cell failing_env ''T4_lysozyme'' ''MN IF'' [''6LB8_A''] 16 18 2 example_world)))
     (sweep_calls failing_env ''T4_lysozyme'' ''MN IF'' [''6LB8_A''] 16 18 2 example_world ! 1) =
     Inl ModelInvocationError"
    by (simp only: failing_network o) simp
  note t1 = errors_propagate [of offline_env "''T4_lysozyme''" "''MN IF''" "[''6LB8_A'']" example_world
      NetworkFailure 16 18 2]
  note t2 = errors_propagate [of failing_env "''T4_lysozyme''" "''MN IF''" "[''6LB8_A'']" example_world
      ModelInvocationError 16 18 2]
  from t1 off have a: "fst (sweep_cell offline_env ''T4_lysozyme'' ''MN IF'' [''6LB8_A''] 16 18 2 example_world) =
     Some (Inl NetworkFailure) \<and>
   sweep_calls offline_env ''T4_lysozyme'' ''MN IF'' [''6LB8_A''] 16 18 2 example_world = []"
    by blast
  from t2 l n have b: "fst (sweep_cell failing_env ''T4_lysozyme'' ''MN IF'' [''6LB8_A''] 16 18 2 example_world) =
     Some (Inl ModelInvocationError) \<and>
   Suc 1 = length (sweep_calls failing_env ''T4_lysozyme'' ''MN IF'' [''6LB8_A''] 16 18 2 example_world)"
    by blast
  from off a l n b show ?thesis by (simp only:)
qed

subsection \<open>C8: the output names do not depend on the random draws\<close>

text \<open>
  Claim C8. Two complete runs of the sweep over the same depth range and repetition count
  that differ in their random numbers produce the same set of output names: the names
  \<open>outname n_model nseq\<close> of all depths \<open>nseq\<close> of the range and all repetitions
  \<open>n_model\<close>.
\<close>

theorem outnames_independent_of_draws:
  "fst (sweep_cell (e\<lparr>draws := d1\<rparr>) j s pdbs lo hi reps w) = Some (Inr ()) \<Longrightarrow>
   fst (sweep_cell (e\<lparr>draws := d2\<rparr>) j s pdbs lo hi reps w) = Some (Inr ()) \<Longrightarrow>
     set (map req_outname (sweep_calls (e\<lparr>draws := d1\<rparr>) j s pdbs lo hi reps w)) =
       set (map req_outname (sweep_calls (e\<lparr>draws := d2\<rparr>) j s pdbs lo hi reps w)) \<and>
     set (map req_outname (sweep_calls (e\<lparr>draws := d1\<rparr>) j s pdbs lo hi reps w)) =
       {outname n_model nseq | nseq n_model.
          nseq \<in> set (py_range lo hi) \<and> n_model \<in> set (py_range 0 reps)}"
proof -
  assume c1: "fst (sweep_cell (e\<lparr>draws := d1\<rparr>) j s pdbs lo hi reps w) = Some (Inr ())"
    and c2: "fst (sweep_cell (e\<lparr>draws := d2\<rparr>) j s pdbs lo hi reps w) = Some (Inr ())"
  have names: "set (map (\<lambda>(nseq, n_model). outname n_model nseq) (sweep_pairs lo hi reps)) =
       {outname n_model nseq | nseq n_model.
          nseq \<in> set (py_range lo hi) \<and> n_model \<in> set (py_range 0 reps)}"
    by (force simp: sweep_pairs_product)
  from c1 have "map req_outname (sweep_calls (e\<lparr>draws := d1\<rparr>) j s pdbs lo hi reps w) =
           map (\<lambda>(nseq, n_model). outname n_model nseq) (sweep_pairs lo hi reps)"
    by (rule sweep_complete_outnames)
  moreover from c2 have "map req_outname (sweep_calls (e\<lparr>draws := d2\<rparr>) j s pdbs lo hi reps w) =
           map (\<lambda>(nseq, n_model). outname n_model nseq) (sweep_pairs lo hi reps)"
    by (rule sweep_complete_outnames)
  ultimately show ?thesis using names by (simp only:)
qed

text \<open>
  C8 for a generator that returns 0, 1, 2, 3, 0, 1, ... and one that always returns 0: both
  runs complete, they use different variants, and the sets of output names are equal.
\<close>

theorem outnames_independent_of_draws_witness:
  "fst (sweep_cell (example_env\<lparr>draws := (\<lambda>k i. i mod 4)\<rparr>) ''T4_lysozyme'' ''MN IF'' [''6LB8_A'']
     16 18 2 example_world) = Some (Inr ()) \<and>
   fst (sweep_cell (example_env\<lparr>draws := (\<lambda>k i. 0)\<rparr>) ''T4_lysozyme'' ''MN IF'' [''6LB8_A'']
     16 18 2 example_world) = Some (Inr ()) \<and>
   map req_model_id (sweep_calls (example_env\<lparr>draws := (\<lambda>k i. i mod 4)\<rparr>) ''T4_lysozyme'' ''MN IF''
     [''6LB8_A''] 16 18 2 example_world) = [1, 2, 1, 2] \<and>
   map req_model_id (sweep_calls (example_env\<lparr>draws := (\<lambda>k i. 0)\<rparr>) ''T4_lysozyme'' ''MN IF''
     [''6LB8_A''] 16 18 2 example_world) = [1, 1, 1, 1] \<and>
   set (map req_outname (sweep_calls (example_env\<lparr>draws := (\<lambda>k i. i mod 4)\<rparr>) ''T4_lysozyme''
     ''MN IF'' [''6LB8_A''] 16 18 2 example_world)) =
   set (map req_outname (sweep_calls (example_env\<lparr>draws := (\<lambda>k i. 0)\<rparr>) ''T4_lysozyme'' ''MN IF''
     [''6LB8_A''] 16 18 2 example_world))"
proof -
  have c1: "fst (sweep_cell (example_env\<lparr>draws := (\<lambda>k i. i mod 4)\<rparr>) ''T4_lysozyme'' ''MN IF''
      [''6LB8_A''] 16 18 2 example_world) = Some (Inr ())"
    using mod_4_window by (rule example_sweep(1))
  have c2: "fst (sweep_cell (example_env\<lparr>draws := (\<lambda>k i. 0)\<rparr>) ''T4_lysozyme'' ''MN IF''
      [''6LB8_A''] 16 18 2 example_world) = Some (Inr ())"
    by (rule example_sweep(1)) simp
  have m1: "map req_model_id (sweep_calls (example_env\<lparr>draws := (\<lambda>k i. i mod 4)\<rparr>) ''T4_lysozyme''
      ''MN IF'' [''6LB8_A''] 16 18 2 example_world) = [1, 2, 1, 2]"
    unfolding example_env_draws by (simp add: ex_calls)
  from outnames_independent_of_draws [OF c1 c2]
  have "set (map req_outname (sweep_calls (example_env\<lparr>draws := (\<lambda>k i. i mod 4)\<rparr>) ''T4_lysozyme''
     ''MN IF'' [''6LB8_A''] 16 18 2 example_world)) =
   set (map req_outname (sweep_calls (example_env\<lparr>draws := (\<lambda>k i. 0)\<rparr>) ''T4_lysozyme'' ''MN IF''
     [''6LB8_A''] 16 18 2 example_world))"
    by (rule conjunct1)
  with c1 c2 m1 ex_zero_ids show ?thesis by (intro conjI)
qed

subsection \<open>C9: the cluster cap is the floor of half the depth\<close>

text \<open>
  Claim C9. In every prediction of a run the cluster cap is the extra-alignment cap
  floor-divided by two. For a depth value that is not negative the cluster cap is at most the
  extra-alignment cap; in the notebook as written, whose depths are 16 to 33, this holds for
  every prediction. The extra-alignment cap is twice the cluster cap exactly when the depth is
  even, and twice the cluster cap plus one when the depth is odd.
\<close>

theorem cluster_cap_floor:
  "(\<forall>r \<in> set (sweep_calls e j s pdbs lo hi reps w).
     req_max_msa_clusters r = req_max_extra_msa r div 2 \<and>
     (0 \<le> req_max_extra_msa r \<longrightarrow> req_max_msa_clusters r \<le> req_max_extra_msa r) \<and>
     ((req_max_extra_msa r = 2 * req_max_msa_clusters r) = even (req_max_extra_msa r)) \<and>
     (odd (req_max_extra_msa r) \<longrightarrow> req_max_extra_msa r = 2 * req_max_msa_clusters r + 1)) \<and>
   (\<forall>r \<in> set (notebook_calls e w). req_max_msa_clusters r \<le> req_max_extra_msa r)"
proof (rule conjI; rule ballI)
  fix r
  assume "r \<in> set (notebook_calls e w)"
  then have m: "r \<in> set (sweep_calls e ''T4_lysozyme''
       (''MNIFEMLRIDEGLRLKIYKDTEGYYTIGIGHLLTKSPSLNAAKSELDKAIGRNCNGVIT'' @
        ''KDEAEKLFNQDVDAAVRGILRNAKLKPVYDSLDAVRRCALINMVFQMGETGVAGFTNSL'' @
        ''RMLQQKRWDEAAVNLAKSRWYNQTPNRAKRVITTFRTGTWDAYKNL'')
       [''6LB8_A'', ''6LB8_C'', ''4PK0_A'', ''6FW2_A''] 16 34 5 w)"
    by (simp only: notebook_calls_sweep)
  from m have c: "req_max_msa_clusters r = req_max_extra_msa r div 2"
    by (rule sweep_calls_depth_bounds(1))
  from m have "16 \<le> req_max_extra_msa r" by (rule sweep_calls_depth_bounds(2))
  then have "req_max_extra_msa r div 2 \<le> req_max_extra_msa r" by presburger
  with c show "req_max_msa_clusters r \<le> req_max_extra_msa r" by simp
next
  fix r
  assume "r \<in> set (sweep_calls e j s pdbs lo hi reps w)"
  then have c: "req_max_msa_clusters r = req_max_extra_msa r div 2"
    by (rule sweep_calls_depth_bounds(1))
  have "0 \<le> req_max_extra_msa r \<longrightarrow> req_max_extra_msa r div 2 \<le> req_max_extra_msa r"
    by presburger
  moreover have "(req_max_extra_msa r = 2 * (req_max_extra_msa r div 2)) = even (req_max_extra_msa r)"
    by presburger
  moreover have "odd (req_max_extra_msa r) \<longrightarrow> req_max_extra_msa r = 2 * (req_max_extra_msa r div 2) + 1"
    by presburger
  ultimately show "req_max_msa_clusters r = req_max_extra_msa r div 2 \<and>
     (0 \<le> req_max_extra_msa r \<longrightarrow> req_max_msa_clusters r \<le> req_max_extra_msa r) \<and>
     ((req_max_extra_msa r = 2 * req_max_msa_clusters r) = even (req_max_extra_msa r)) \<and>
     (odd (req_max_extra_msa r) \<longrightarrow> req_max_extra_msa r = 2 * req_max_msa_clusters r + 1)"
    unfolding c by blast
qed

text \<open>
  C9 at the third prediction of the sweep over the depths 16 and 17, which has the odd depth
  17, and at the sixth prediction of the notebook as written.
\<close>

theorem cluster_cap_floor_witness:
  "sweep_calls example_env ''T4_lysozyme'' ''MN IF'' [''6LB8_A''] 16 18 2 example_world ! 2
     \<in> set (sweep_calls example_env ''T4_lysozyme'' ''MN IF'' [''6LB8_A''] 16 18 2 example_world) \<and>
   0 \<le> req_max_extra_msa
     (sweep_calls example_env ''T4_lysozyme'' ''MN IF'' [''6LB8_A''] 16 18 2 example_world ! 2) \<and>
   odd (req_max_extra_msa
     (sweep_calls example_env ''T4_lysozyme'' ''MN IF'' [''6LB8_A''] 16 18 2 example_world ! 2)) \<and>
   req_max_msa_clusters
     (sweep_calls example_env ''T4_lysozyme'' ''MN IF'' [''6LB8_A''] 16 18 2 example_world ! 2) \<le>
   req_max_extra_msa
     (sweep_calls example_env ''T4_lysozyme'' ''MN IF'' [''6LB8_A''] 16 18 2 example_world ! 2) \<and>
   req_max_extra_msa
     (sweep_calls example_env ''T4_lysozyme'' ''MN IF'' [''6LB8_A''] 16 18 2 example_world ! 2) =
   2 * req_max_msa_clusters
     (sweep_calls example_env ''T4_lysozyme'' ''MN IF'' [''6LB8_A''] 16 18 2 example_world ! 2) + 1 \<and>
   notebook_calls example_env example_world ! 5 \<in> set (notebook_calls example_env example_world) \<and>
   req_max_msa_clusters (notebook_calls example_env example_world ! 5) \<le>
     req_max_extra_msa (notebook_calls example_env example_world ! 5)"
proof -
  let ?r = "sweep_calls example_env ''T4_lysozyme'' ''MN IF'' [''6LB8_A''] 16 18 2 example_world ! 2"
  have m: "?r \<in> set (sweep_calls example_env ''T4_lysozyme'' ''MN IF'' [''6LB8_A''] 16 18 2 example_world)"
    by (rule ex_mem) simp
  have d: "req_max_extra_msa ?r = 17" by (simp add: ex_calls)
  have h0: "0 \<le> req_max_extra_msa ?r" and h1: "odd (req_max_extra_msa ?r)"
    unfolding d by simp_all
  have m': "notebook_calls example_env example_world ! 5 \<in> set (notebook_calls example_env example_world)"
    by (rule nth_mem) (rule example_notebook_call_5(1))
  note t = cluster_cap_floor [of example_env "''T4_lysozyme''" "''MN IF''" "[''6LB8_A'']" 16 18 2
      example_world]
  from t m h0 h1 m' show ?thesis by blast
qed

subsection \<open>C10: the sequence passed to every prediction\<close>

text \<open>
  Claim C10. Every prediction of a run is passed the sequence stored in the runner object,
  which is the caller's sequence without its whitespace; where the caller's sequence contains
  whitespace this is not the caller's string. The value is the same for all predictions.
\<close>

theorem sweep_sequence:
  "\<forall>r \<in> set (sweep_calls e j s pdbs lo hi reps w).
     req_seq r = seq (MMSeqs2Runner j s) \<and>
     req_seq r = filter (\<lambda>c. \<not> is_whitespace c) s \<and>
     ((\<exists>c \<in> set s. is_whitespace c) \<longrightarrow> req_seq r \<noteq> s)"
proof
  fix r
  assume "r \<in> set (sweep_calls e j s pdbs lo hi reps w)"
  then have a: "req_seq r = seq (MMSeqs2Runner j s)" by (rule sweep_calls_depth_bounds(4))
  then have b: "req_seq r = filter (\<lambda>c. \<not> is_whitespace c) s" by (simp add: MMSeqs2Runner_def)
  have "(\<exists>c \<in> set s. is_whitespace c) \<longrightarrow> filter (\<lambda>c. \<not> is_whitespace c) s \<noteq> s"
    by (auto simp: filter_id_conv)
  with a b show "req_seq r = seq (MMSeqs2Runner j s) \<and>
     req_seq r = filter (\<lambda>c. \<not> is_whitespace c) s \<and>
     ((\<exists>c \<in> set s. is_whitespace c) \<longrightarrow> req_seq r \<noteq> s)"
    by simp
qed

text \<open>
  C10 for the caller's sequence \<open>MN IF\<close>: the first prediction is passed \<open>MNIF\<close>.
\<close>

theorem sweep_sequence_witness:
  "sweep_calls example_env ''T4_lysozyme'' ''MN IF'' [''6LB8_A''] 16 18 2 example_world ! 0
     \<in> set (sweep_calls example_env ''T4_lysozyme'' ''MN IF'' [''6LB8_A''] 16 18 2 example_world) \<and>
   (\<exists>c \<in> set ''MN IF''. is_whitespace c) \<and>
   req_seq (sweep_calls example_env ''T4_lysozyme'' ''MN IF'' [''6LB8_A''] 16 18 2 example_world ! 0) =
     ''MNIF'' \<and>
   req_seq (sweep_calls example_env ''T4_lysozyme'' ''MN IF'' [''6LB8_A''] 16 18 2 example_world ! 0) \<noteq>
     ''MN IF''"
proof -
  let ?r = "sweep_calls example_env ''T4_lysozyme'' ''MN IF'' [''6LB8_A''] 16 18 2 example_world ! 0"
  have m: "?r \<in> set (sweep_calls example_env ''T4_lysozyme'' ''MN IF'' [''6LB8_A''] 16 18 2 example_world)"
    by (rule ex_mem) simp
  have ws: "\<exists>c \<in> set ''MN IF''. is_whitespace c" by (simp add: is_whitespace_def)
  have f: "filter (\<lambda>c. \<not> is_whitespace c) ''MN IF'' = ''MNIF''" by (simp add: is_whitespace_def)
  note t = sweep_sequence [of example_env "''T4_lysozyme''" "''MN IF''" "[''6LB8_A'']" 16 18 2
      example_world, rule_format, OF m]
  from t have "req_seq ?r = filter (\<lambda>c. \<not> is_whitespace c) ''MN IF''" by (rule conjunct1 [OF conjunct2])
  then have a: "req_seq ?r = ''MNIF''" by (simp only: f)
  from t have "(\<exists>c \<in> set ''MN IF''. is_whitespace c) \<longrightarrow> req_seq ?r \<noteq> ''MN IF''"
    by (rule conjunct2 [OF conjunct2])
  from this ws have b: "req_seq ?r \<noteq> ''MN IF''" by (rule mp)
  from m ws a b show ?thesis by (intro conjI)
qed

end
